theory Spec2Isabelle
  imports Complex_Main "HOL-Library.Word" "HOL-Library.Sublist"
begin

unbundle bit_operations_syntax

section \<open>Text\<close>

text \<open>
  A Python \<open>str\<close> is a sequence of Unicode code points; it is modelled as a list of
  naturals. The strings the bot handles come from Telegram messages and from JSON
  responses, so they are taken to be well-formed (no lone surrogates), which makes
  \<open>encode('utf-8')\<close> total.  ASCII literals are written through \<open>cp\<close>; the Cyrillic
  entries of the keyword tables are written as their code points.
\<close>

type_synonym str = "nat list"

definition cp :: "string \<Rightarrow> str" where
  "cp s = map of_char s"

text \<open>
  \<open>str.isspace\<close> for one character: the code points Python treats as whitespace in
  \<open>strip()\<close> and in \<open>split()\<close> without arguments.
\<close>

definition isspace :: "nat \<Rightarrow> bool" where
  "isspace c \<longleftrightarrow>
     (0x09 \<le> c \<and> c \<le> 0x0D) \<or> (0x1C \<le> c \<and> c \<le> 0x20) \<or> c = 0x85 \<or> c = 0xA0 \<or>
     c = 0x1680 \<or> (0x2000 \<le> c \<and> c \<le> 0x200A) \<or> c = 0x2028 \<or> c = 0x2029 \<or>
     c = 0x202F \<or> c = 0x205F \<or> c = 0x3000"

text \<open>
  \<open>str.lower\<close>, character by character. The mapping covers Basic Latin and the Cyrillic
  block (U+0400 to U+042F), the two alphabets of the bot's keyword tables and posts;
  every other code point is left as it is.
\<close>

definition lower_cp :: "nat \<Rightarrow> nat" where
  "lower_cp c =
     (if 0x41 \<le> c \<and> c \<le> 0x5A then c + 0x20
      else if 0x410 \<le> c \<and> c \<le> 0x42F then c + 0x20
      else if 0x400 \<le> c \<and> c \<le> 0x40F then c + 0x50
      else c)"

definition py_lower :: "str \<Rightarrow> str" where
  "py_lower t = map lower_cp t"

definition py_strip :: "str \<Rightarrow> str" where
  "py_strip t = rev (dropWhile isspace (rev (dropWhile isspace t)))"

text \<open>
  \<open>t.split()\<close>: the maximal runs of non-whitespace characters, in order. \<open>w\<close> is the
  word being read.
\<close>

fun split_from :: "str \<Rightarrow> str \<Rightarrow> str list" where
  "split_from w [] = (if w = [] then [] else [w])"
| "split_from w (c # cs) =
     (if isspace c then (if w = [] then split_from [] cs else w # split_from [] cs)
      else split_from (w @ [c]) cs)"

definition py_split :: "str \<Rightarrow> str list" where
  "py_split t = split_from [] t"

fun py_join :: "str \<Rightarrow> str list \<Rightarrow> str" where
  "py_join sep [] = []"
| "py_join sep [w] = w"
| "py_join sep (w # ws) = w @ sep @ py_join sep ws"

text \<open>\<open>k in t\<close> for strings: \<open>k\<close> occurs in \<open>t\<close> as a contiguous substring.\<close>

fun py_in :: "str \<Rightarrow> str \<Rightarrow> bool" where
  "py_in k [] \<longleftrightarrow> k = []"
| "py_in k (c # cs) \<longleftrightarrow> prefix k (c # cs) \<or> py_in k cs"

section \<open>MD5 (\<open>hashlib.md5(...).hexdigest()\<close>)\<close>

text \<open>
  The digest of the standard library, after RFC 1321: the message is the UTF-8 encoding
  of the text, padded with \<open>0x80\<close>, zeros and its length in bits to a multiple of 64
  bytes, and read as little-endian 32-bit words; the digest is printed in lower-case
  hexadecimal.
\<close>

definition utf8_char :: "nat \<Rightarrow> nat list" where
  "utf8_char c =
     (if c < 0x80 then [c]
      else if c < 0x800 then [0xC0 + c div 0x40, 0x80 + c mod 0x40]
      else if c < 0x10000 then
        [0xE0 + c div 0x1000, 0x80 + c div 0x40 mod 0x40, 0x80 + c mod 0x40]
      else [0xF0 + c div 0x40000, 0x80 + c div 0x1000 mod 0x40,
            0x80 + c div 0x40 mod 0x40, 0x80 + c mod 0x40])"

definition encode_utf8 :: "str \<Rightarrow> nat list" where
  "encode_utf8 t = concat (map utf8_char t)"

definition md5_K :: "32 word list" where
  "md5_K =
    [0xd76aa478, 0xe8c7b756, 0x242070db, 0xc1bdceee,
     0xf57c0faf, 0x4787c62a, 0xa8304613, 0xfd469501,
     0x698098d8, 0x8b44f7af, 0xffff5bb1, 0x895cd7be,
     0x6b901122, 0xfd987193, 0xa679438e, 0x49b40821,
     0xf61e2562, 0xc040b340, 0x265e5a51, 0xe9b6c7aa,
     0xd62f105d, 0x02441453, 0xd8a1e681, 0xe7d3fbc8,
     0x21e1cde6, 0xc33707d6, 0xf4d50d87, 0x455a14ed,
     0xa9e3e905, 0xfcefa3f8, 0x676f02d9, 0x8d2a4c8a,
     0xfffa3942, 0x8771f681, 0x6d9d6122, 0xfde5380c,
     0xa4beea44, 0x4bdecfa9, 0xf6bb4b60, 0xbebfbc70,
     0x289b7ec6, 0xeaa127fa, 0xd4ef3085, 0x04881d05,
     0xd9d4d039, 0xe6db99e5, 0x1fa27cf8, 0xc4ac5665,
     0xf4292244, 0x432aff97, 0xab9423a7, 0xfc93a039,
     0x655b59c3, 0x8f0ccc92, 0xffeff47d, 0x85845dd1,
     0x6fa87e4f, 0xfe2ce6e0, 0xa3014314, 0x4e0811a1,
     0xf7537e82, 0xbd3af235, 0x2ad7d2bb, 0xeb86d391]"

definition md5_S :: "nat list" where
  "md5_S =
    [7, 12, 17, 22, 7, 12, 17, 22, 7, 12, 17, 22, 7, 12, 17, 22,
     5, 9, 14, 20, 5, 9, 14, 20, 5, 9, 14, 20, 5, 9, 14, 20,
     4, 11, 16, 23, 4, 11, 16, 23, 4, 11, 16, 23, 4, 11, 16, 23,
     6, 10, 15, 21, 6, 10, 15, 21, 6, 10, 15, 21, 6, 10, 15, 21]"

definition rotl32 :: "32 word \<Rightarrow> nat \<Rightarrow> 32 word" where
  "rotl32 x n = push_bit n x OR drop_bit (32 - n) x"

definition md5_pad :: "nat list \<Rightarrow> nat list" where
  "md5_pad m =
     (let bits = 8 * of_nat (length m) :: 64 word
      in m @ [0x80] @ replicate ((119 - length m mod 64) mod 64) 0
           @ map (\<lambda>i. unat (drop_bit (8 * i) bits AND 0xFF)) [0..<8])"

fun le_words :: "nat list \<Rightarrow> 32 word list" where
  "le_words (b0 # b1 # b2 # b3 # bs) =
     (of_nat b0 OR push_bit 8 (of_nat b1) OR push_bit 16 (of_nat b2) OR push_bit 24 (of_nat b3))
       # le_words bs"
| "le_words _ = []"

type_synonym md5_state = "32 word \<times> 32 word \<times> 32 word \<times> 32 word"

definition md5_step :: "32 word list \<Rightarrow> nat \<Rightarrow> md5_state \<Rightarrow> md5_state" where
  "md5_step M i st =
     (case st of (A, B, C, D) \<Rightarrow>
        let F = (if i < 16 then (B AND C) OR (NOT B AND D)
                 else if i < 32 then (D AND B) OR (NOT D AND C)
                 else if i < 48 then B XOR C XOR D
                 else C XOR (B OR NOT D));
            g = (if i < 16 then i
                 else if i < 32 then (5 * i + 1) mod 16
                 else if i < 48 then (3 * i + 5) mod 16
                 else (7 * i) mod 16);
            F' = F + A + md5_K ! i + M ! g
        in (D, B + rotl32 F' (md5_S ! i), B, C))"

definition md5_block :: "md5_state \<Rightarrow> 32 word list \<Rightarrow> md5_state" where
  "md5_block st M =
     (case st of (a0, b0, c0, d0) \<Rightarrow>
        case fold (md5_step M) [0..<64] st of (A, B, C, D) \<Rightarrow>
          (a0 + A, b0 + B, c0 + C, d0 + D))"

fun md5_blocks :: "md5_state \<Rightarrow> 32 word list \<Rightarrow> md5_state" where
  "md5_blocks st ws =
     (if length ws < 16 then st else md5_blocks (md5_block st (take 16 ws)) (drop 16 ws))"

definition le_bytes :: "32 word \<Rightarrow> nat list" where
  "le_bytes w = map (\<lambda>i. unat (drop_bit (8 * i) w AND 0xFF)) [0..<4]"

definition hex_digit :: "nat \<Rightarrow> nat" where
  "hex_digit d = (if d < 10 then 0x30 + d else 0x57 + d)"

definition hex_byte :: "nat \<Rightarrow> str" where
  "hex_byte b = [hex_digit (b div 16), hex_digit (b mod 16)]"

definition md5_hexdigest :: "nat list \<Rightarrow> str" where
  "md5_hexdigest m =
     (case md5_blocks (0x67452301, 0xefcdab89, 0x98badcfe, 0x10325476) (le_words (md5_pad m)) of
        (a, b, c, d) \<Rightarrow> concat (map hex_byte (le_bytes a @ le_bytes b @ le_bytes c @ le_bytes d)))"

section \<open>\<open>NewsParser.is_relevant_news\<close>\<close>

definition ukraine_keywords :: "str list" where
  "ukraine_keywords =
    [[0x443, 0x43A, 0x440, 0x430, 0x438, 0x43D], cp ''ukraine'',
     [0x437, 0x435, 0x43B, 0x435, 0x43D, 0x441, 0x43A], cp ''zelensky'',
     [0x437, 0x435, 0x43B, 0x435, 0x43D, 0x441, 0x43A, 0x438, 0x439]]"

definition political_markers :: "str list" where
  "political_markers =
    [[0x433, 0x435, 0x43E, 0x43F, 0x43E, 0x43B, 0x438, 0x442, 0x438, 0x43A, 0x430],
     cp ''geopolitics'',
     [0x433, 0x435, 0x43E, 0x43F, 0x43E, 0x43B, 0x438, 0x442, 0x438, 0x43A],
     [0x440, 0x43E, 0x441, 0x441, 0x438, 0x44F], cp ''russia'',
     [0x440, 0x43E, 0x441, 0x441, 0x438, 0x439], [0x441, 0x448, 0x430], cp ''usa'',
     cp ''united states'', [0x430, 0x43C, 0x435, 0x440, 0x438, 0x43A],
     [0x432, 0x430, 0x448, 0x438, 0x43D, 0x433, 0x442, 0x43E, 0x43D], cp ''washington'',
     [0x43A, 0x438, 0x442, 0x430, 0x439], cp ''china'',
     [0x43A, 0x438, 0x442, 0x430, 0x439, 0x441, 0x43A],
     [0x442, 0x430, 0x439, 0x432, 0x430, 0x43D, 0x44C], cp ''taiwan'',
     [0x442, 0x430, 0x439, 0x432, 0x430, 0x43D, 0x44C], [0x432, 0x43E, 0x439, 0x43D, 0x430],
     cp ''war'', [0x432, 0x43E, 0x435, 0x43D, 0x43D],
     [0x441, 0x430, 0x43D, 0x43A, 0x446, 0x438, 0x438], cp ''sanctions'',
     [0x441, 0x430, 0x43D, 0x43A, 0x446, 0x438],
     [0x434, 0x438, 0x43F, 0x43B, 0x43E, 0x43C, 0x430, 0x442, 0x438, 0x44F],
     cp ''diplomacy'', [0x434, 0x438, 0x43F, 0x43B, 0x43E, 0x43C, 0x430, 0x442],
     [0x43F, 0x440, 0x435, 0x437, 0x438, 0x434, 0x435, 0x43D, 0x442], cp ''president'',
     [0x43F, 0x440, 0x435, 0x437, 0x438, 0x434, 0x435, 0x43D, 0x442],
     [0x43F, 0x440, 0x430, 0x432, 0x438, 0x442, 0x435, 0x43B, 0x44C, 0x441, 0x442, 0x432, 0x43E],
     cp ''government'',
     [0x43F, 0x440, 0x430, 0x432, 0x438, 0x442, 0x435, 0x43B, 0x44C, 0x441, 0x442, 0x432],
     [0x43C, 0x438, 0x43D, 0x438, 0x441, 0x442, 0x440], cp ''minister'',
     [0x43C, 0x438, 0x43D, 0x438, 0x441, 0x442, 0x440],
     [0x43F, 0x440, 0x435, 0x43C, 0x44C, 0x435, 0x440], cp ''prime minister'',
     [0x43F, 0x440, 0x435, 0x43C, 0x44C, 0x435, 0x440],
     [0x43F, 0x430, 0x440, 0x43B, 0x430, 0x43C, 0x435, 0x43D, 0x442], cp ''parliament'',
     [0x43F, 0x430, 0x440, 0x43B, 0x430, 0x43C, 0x435, 0x43D, 0x442],
     [0x432, 0x44B, 0x431, 0x43E, 0x440, 0x44B], cp ''elections'',
     [0x432, 0x44B, 0x431, 0x43E, 0x440],
     [0x440, 0x435, 0x444, 0x435, 0x440, 0x435, 0x43D, 0x434, 0x443, 0x43C],
     cp ''referendum'',
     [0x440, 0x435, 0x444, 0x435, 0x440, 0x435, 0x43D, 0x434, 0x443, 0x43C],
     [0x43D, 0x430, 0x442, 0x43E], cp ''nato'', [0x435, 0x441], cp ''eu'',
     cp ''european union'', [0x435, 0x432, 0x440, 0x43E, 0x441, 0x43E, 0x44E, 0x437],
     [0x432, 0x435, 0x43D, 0x435, 0x441, 0x443, 0x44D, 0x43B, 0x430], cp ''venezuela'',
     [0x432, 0x435, 0x43D, 0x435, 0x441, 0x443, 0x44D, 0x43B], [0x438, 0x440, 0x430, 0x43D],
     cp ''iran'', [0x438, 0x440, 0x430, 0x43D],
     [0x438, 0x437, 0x440, 0x430, 0x438, 0x43B, 0x44C], cp ''israel'',
     [0x438, 0x437, 0x440, 0x430, 0x438, 0x43B],
     [0x43F, 0x430, 0x43B, 0x435, 0x441, 0x442, 0x438, 0x43D, 0x430], cp ''palestine'',
     [0x43F, 0x430, 0x43B, 0x435, 0x441, 0x442, 0x438, 0x43D],
     [0x433, 0x440, 0x435, 0x43D, 0x43B, 0x430, 0x43D, 0x434, 0x438, 0x44F],
     cp ''greenland'', [0x433, 0x440, 0x435, 0x43D, 0x43B, 0x430, 0x43D, 0x434],
     [0x438, 0x440, 0x43B, 0x430, 0x43D, 0x434, 0x438, 0x44F], cp ''ireland'',
     [0x438, 0x440, 0x43B, 0x430, 0x43D, 0x434],
     [0x44E, 0x436, 0x43D, 0x430, 0x44F, 0x20, 0x43A, 0x43E, 0x440, 0x435, 0x44F],
     cp ''south korea'',
     [0x44E, 0x436, 0x43D, 0x43E, 0x43A, 0x43E, 0x440, 0x435, 0x439, 0x441, 0x43A],
     [0x442, 0x443, 0x440, 0x446, 0x438, 0x44F], cp ''turkey'',
     [0x442, 0x443, 0x440, 0x435, 0x446, 0x43A], [0x435, 0x432, 0x440, 0x43E, 0x43F, 0x430],
     cp ''europe'', [0x435, 0x432, 0x440, 0x43E, 0x43F, 0x435, 0x439, 0x441, 0x43A],
     [0x43C, 0x430, 0x434, 0x443, 0x440, 0x43E], cp ''maduro'',
     [0x441, 0x438, 0x20, 0x446, 0x437, 0x438, 0x43D, 0x44C, 0x43F, 0x438, 0x43D],
     cp ''xi jinping'', [0x442, 0x440, 0x430, 0x43C, 0x43F], cp ''trump'',
     [0x431, 0x430, 0x439, 0x434, 0x435, 0x43D], cp ''biden'']"

definition strict_crypto_keywords :: "str list" where
  "strict_crypto_keywords =
    [[0x43A, 0x440, 0x438, 0x43F, 0x442],
     [0x43A, 0x440, 0x438, 0x43F, 0x442, 0x43E, 0x432, 0x430, 0x43B, 0x44E, 0x442],
     cp ''crypto'', cp ''cryptocurrency'', [0x43A, 0x440, 0x438, 0x43F, 0x442, 0x430],
     [0x43A, 0x440, 0x438, 0x43F, 0x442, 0x43E],
     [0x431, 0x43B, 0x43E, 0x43A, 0x447, 0x435, 0x439, 0x43D], cp ''blockchain'',
     [0x431, 0x438, 0x442, 0x43A, 0x43E, 0x438, 0x43D], cp ''bitcoin'', cp ''btc'',
     [0x431, 0x438, 0x442, 0x43E, 0x43A], [0x44D, 0x444, 0x438, 0x440], cp ''ethereum'',
     cp ''eth'', [0x44D, 0x444, 0x438, 0x440, 0x438, 0x443, 0x43C], [0x442, 0x43E, 0x43D],
     cp ''ton'', cp ''toncoin'', cp ''the open network'', cp ''usdt'', cp ''tether'',
     [0x442, 0x435, 0x437, 0x435, 0x440], cp ''usdc'', cp ''usd coin'', cp ''bnb'',
     cp ''binance coin'', [0x431, 0x438, 0x43D, 0x430, 0x43D, 0x441], cp ''sol'',
     cp ''solana'', [0x441, 0x43E, 0x43B, 0x430, 0x43D, 0x430], cp ''ada'', cp ''cardano'',
     [0x43A, 0x430, 0x440, 0x434, 0x430, 0x43D, 0x43E], cp ''xrp'', cp ''ripple'',
     [0x440, 0x438, 0x43F, 0x43B], cp ''doge'', cp ''dogecoin'', [0x434, 0x43E, 0x436],
     [0x434, 0x43E, 0x433, 0x438, 0x43A, 0x43E, 0x438, 0x43D], cp ''shib'', cp ''shiba inu'',
     [0x448, 0x43E, 0x438, 0x431], [0x448, 0x438, 0x431, 0x430], cp ''matic'',
     cp ''polygon'', [0x43F, 0x43E, 0x43B, 0x438, 0x433, 0x43E, 0x43D], cp ''avax'',
     cp ''avalanche'', [0x430, 0x432, 0x430, 0x43B, 0x430, 0x43D, 0x447], cp ''dot'',
     cp ''polkadot'', [0x43F, 0x43E, 0x43B, 0x43A, 0x430, 0x434, 0x43E, 0x442], cp ''link'',
     cp ''chainlink'', [0x447, 0x435, 0x439, 0x43D, 0x43B, 0x438, 0x43D, 0x43A], cp ''uni'',
     cp ''uniswap'', [0x44E, 0x43D, 0x438, 0x441, 0x432, 0x430, 0x43F], cp ''ltc'',
     cp ''litecoin'', [0x43B, 0x430, 0x439, 0x442, 0x43A, 0x43E, 0x438, 0x43D], cp ''bch'',
     cp ''bitcoin cash'',
     [0x431, 0x438, 0x442, 0x43A, 0x43E, 0x438, 0x43D, 0x20, 0x43A, 0x44D, 0x448],
     cp ''xlm'', cp ''stellar'', [0x441, 0x442, 0x435, 0x43B, 0x43B, 0x430, 0x440],
     cp ''atom'', cp ''cosmos'', [0x43A, 0x43E, 0x441, 0x43C, 0x43E, 0x441], cp ''near'',
     cp ''near protocol'', cp ''ftm'', cp ''fantom'',
     [0x444, 0x430, 0x43D, 0x442, 0x43E, 0x43C], cp ''algo'', cp ''algorand'',
     [0x430, 0x43B, 0x433, 0x43E, 0x440, 0x430, 0x43D, 0x434], cp ''vet'', cp ''vechain'',
     [0x432, 0x435, 0x447, 0x435, 0x439, 0x43D], cp ''icp'', cp ''internet computer'',
     cp ''apt'', cp ''aptos'', [0x430, 0x43F, 0x442, 0x43E, 0x441], cp ''arb'',
     cp ''arbitrum'', [0x430, 0x440, 0x431, 0x438, 0x442, 0x440, 0x443, 0x43C], cp ''op'',
     cp ''optimism'', [0x43E, 0x43F, 0x442, 0x438, 0x43C, 0x438, 0x437, 0x43C], cp ''sui'',
     [0x441, 0x443, 0x438], cp ''sei'', [0x441, 0x435, 0x439], cp ''tia'', cp ''celestia'',
     [0x446, 0x435, 0x43B, 0x435, 0x441, 0x442, 0x438, 0x44F], cp ''inj'', cp ''injective'',
     [0x438, 0x43D, 0x436, 0x435, 0x43A, 0x442, 0x438, 0x432], cp ''rndr'', cp ''render'',
     [0x440, 0x435, 0x43D, 0x434, 0x435, 0x440], cp ''imx'', cp ''immutable x'', cp ''grt'',
     cp ''the graph'', cp ''aave'', [0x430, 0x430, 0x432, 0x435], cp ''comp'',
     cp ''compound'', [0x43A, 0x43E, 0x43C, 0x43F, 0x430, 0x443, 0x43D, 0x434], cp ''mkr'',
     cp ''maker'', [0x43C, 0x435, 0x439, 0x43A, 0x435, 0x440], cp ''snx'', cp ''synthetix'',
     [0x441, 0x438, 0x43D, 0x442, 0x435, 0x442, 0x438, 0x43A, 0x441], cp ''crv'',
     cp ''curve'', [0x43A, 0x440, 0x438, 0x432, 0x430, 0x44F], cp ''1inch'',
     [0x31, 0x438, 0x43D, 0x447], cp ''sushi'', cp ''sushiswap'',
     [0x441, 0x443, 0x448, 0x438], cp ''pancake'', cp ''pancakeswap'',
     [0x43F, 0x430, 0x43D, 0x43A, 0x435, 0x439, 0x43A], [0x434, 0x435, 0x444, 0x430, 0x439],
     cp ''defi'', cp ''decentralized finance'', [0x43D, 0x444, 0x442], cp ''nft'',
     cp ''non-fungible token'', [0x441, 0x442, 0x435, 0x439, 0x43A, 0x438, 0x43D, 0x433],
     cp ''staking'', [0x441, 0x442, 0x435, 0x439, 0x43A],
     [0x43C, 0x430, 0x439, 0x43D, 0x438, 0x43D, 0x433], cp ''mining'',
     [0x43C, 0x430, 0x439, 0x43D, 0x438, 0x43D, 0x433],
     [0x441, 0x430, 0x442, 0x43E, 0x448, 0x438], cp ''satoshi'', [0x441, 0x430, 0x442],
     cp ''wei'', [0x432, 0x435, 0x439], [0x433, 0x430, 0x437], cp ''gas'', cp ''gas fee'',
     [0x441, 0x43C, 0x430, 0x440, 0x442, 0x20, 0x43A, 0x43E, 0x43D, 0x442, 0x440, 0x430, 0x43A, 0x442],
     cp ''smart contract'', cp ''dapp'',
     [0x434, 0x435, 0x446, 0x435, 0x43D, 0x442, 0x440, 0x430, 0x43B, 0x438, 0x437, 0x43E, 0x432, 0x430, 0x43D, 0x43D, 0x43E, 0x435, 0x20, 0x43F, 0x440, 0x438, 0x43B, 0x43E, 0x436, 0x435, 0x43D, 0x438, 0x435],
     cp ''dao'',
     [0x434, 0x435, 0x446, 0x435, 0x43D, 0x442, 0x440, 0x430, 0x43B, 0x438, 0x437, 0x43E, 0x432, 0x430, 0x43D, 0x43D, 0x430, 0x44F, 0x20, 0x430, 0x432, 0x442, 0x43E, 0x43D, 0x43E, 0x43C, 0x43D, 0x430, 0x44F, 0x20, 0x43E, 0x440, 0x433, 0x430, 0x43D, 0x438, 0x437, 0x430, 0x446, 0x438, 0x44F],
     cp ''web3'', [0x432, 0x435, 0x431, 0x33],
     [0x43C, 0x435, 0x442, 0x430, 0x432, 0x441, 0x435, 0x43B, 0x435, 0x43D, 0x43D, 0x430, 0x44F],
     cp ''metaverse'',
     [0x43C, 0x435, 0x442, 0x430, 0x432, 0x441, 0x435, 0x43B, 0x435, 0x43D, 0x43D, 0x430, 0x44F],
     cp ''p2e'', cp ''play to earn'',
     [0x438, 0x433, 0x440, 0x430, 0x439, 0x20, 0x438, 0x20, 0x437, 0x430, 0x440, 0x430, 0x431, 0x430, 0x442, 0x44B, 0x432, 0x430, 0x439],
     cp ''gamefi'', [0x433, 0x435, 0x439, 0x43C, 0x444, 0x438], cp ''yield farming'',
     [0x444, 0x430, 0x440, 0x43C, 0x438, 0x43D, 0x433], cp ''dex'',
     [0x434, 0x435, 0x446, 0x435, 0x43D, 0x442, 0x440, 0x430, 0x43B, 0x438, 0x437, 0x43E, 0x432, 0x430, 0x43D, 0x43D, 0x430, 0x44F, 0x20, 0x431, 0x438, 0x440, 0x436, 0x430],
     cp ''cex'',
     [0x446, 0x435, 0x43D, 0x442, 0x440, 0x430, 0x43B, 0x438, 0x437, 0x43E, 0x432, 0x430, 0x43D, 0x43D, 0x430, 0x44F, 0x20, 0x431, 0x438, 0x440, 0x436, 0x430],
     cp ''wallet'', [0x43A, 0x43E, 0x448, 0x435, 0x43B, 0x435, 0x43A],
     [0x432, 0x430, 0x43B, 0x43B, 0x435, 0x442], cp ''exchange'',
     [0x431, 0x438, 0x440, 0x436, 0x430], cp ''trading'',
     [0x442, 0x440, 0x435, 0x439, 0x434, 0x438, 0x43D, 0x433],
     [0x442, 0x43E, 0x440, 0x433, 0x43E, 0x432, 0x43B, 0x44F], cp ''bull'',
     [0x431, 0x44B, 0x43A], [0x431, 0x44B, 0x447, 0x438, 0x439], cp ''bear'',
     [0x43C, 0x435, 0x434, 0x432, 0x435, 0x434, 0x44C],
     [0x43C, 0x435, 0x434, 0x432, 0x435, 0x436, 0x438, 0x439], cp ''whale'',
     [0x43A, 0x438, 0x442], cp ''fomo'', [0x444, 0x43E, 0x43C, 0x43E], cp ''fud'',
     [0x444, 0x443, 0x434], cp ''hype'', [0x445, 0x430, 0x439, 0x43F], cp ''pump'',
     [0x43F, 0x430, 0x43C, 0x43F], [0x43D, 0x430, 0x43A, 0x430, 0x447, 0x43A, 0x430],
     cp ''dump'', [0x434, 0x430, 0x43C, 0x43F], [0x441, 0x431, 0x440, 0x43E, 0x441],
     cp ''hold'', [0x445, 0x43E, 0x43B, 0x434],
     [0x434, 0x435, 0x440, 0x436, 0x430, 0x442, 0x44C], cp ''hodl'',
     [0x445, 0x430, 0x434, 0x43B], cp ''moon'', [0x43B, 0x443, 0x43D, 0x430],
     [0x43A, 0x20, 0x43B, 0x443, 0x43D, 0x435], cp ''lambo'',
     [0x43B, 0x430, 0x43C, 0x431, 0x43E], cp ''rekt'', [0x440, 0x435, 0x43A, 0x442],
     cp ''diamond hands'',
     [0x430, 0x43B, 0x43C, 0x430, 0x437, 0x43D, 0x44B, 0x435, 0x20, 0x440, 0x443, 0x43A, 0x438],
     cp ''paper hands'',
     [0x431, 0x443, 0x43C, 0x430, 0x436, 0x43D, 0x44B, 0x435, 0x20, 0x440, 0x443, 0x43A, 0x438]]"

definition general_keywords :: "str list" where
  "general_keywords =
    [[0x442, 0x43E, 0x43A, 0x435, 0x43D], cp ''token'', [0x43A, 0x43E, 0x438, 0x43D],
     cp ''coin'', [0x430, 0x43B, 0x44C, 0x442, 0x43A, 0x43E, 0x438, 0x43D], cp ''altcoin'',
     cp ''liquidity'',
     [0x43B, 0x438, 0x43A, 0x432, 0x438, 0x434, 0x43D, 0x43E, 0x441, 0x442, 0x44C]]"

definition financial_context :: "str list" where
  "financial_context =
    [[0x446, 0x435, 0x43D, 0x430], cp ''price'', [0x43A, 0x443, 0x440, 0x441], cp ''rate'',
     [0x440, 0x43E, 0x441, 0x442], [0x440, 0x43E, 0x441, 0x442],
     [0x43F, 0x430, 0x434, 0x435, 0x43D, 0x438, 0x435], cp ''fall'',
     [0x438, 0x43D, 0x432, 0x435, 0x441, 0x442, 0x438, 0x446], cp ''invest'',
     [0x431, 0x438, 0x440, 0x436], cp ''exchange'',
     [0x442, 0x43E, 0x440, 0x433, 0x43E, 0x432, 0x43B], cp ''trading'']"

definition tech_context :: "str list" where
  "tech_context =
    [[0x431, 0x43B, 0x43E, 0x43A, 0x447, 0x435, 0x439, 0x43D], cp ''blockchain'',
     [0x442, 0x435, 0x445, 0x43D, 0x43E, 0x43B, 0x43E, 0x433, 0x438], cp ''technology'',
     [0x43F, 0x440, 0x43E, 0x442, 0x43E, 0x43A, 0x43E, 0x43B], cp ''protocol'',
     [0x441, 0x435, 0x442, 0x44C], cp ''network'']"

text \<open>
  Python's \<open>any(k in text_lower for k in ks)\<close> is \<open>list_ex\<close>. The loop over
  \<open>strict_crypto_keywords\<close> returns \<open>True\<close> at the first hit, so after it
  \<open>has_strict_crypto\<close> still holds its initial \<open>False\<close>.
\<close>

definition is_relevant_news :: "str option \<Rightarrow> bool" where
  "is_relevant_news text_arg =
     (case text_arg of
        None \<Rightarrow> False
      | Some txt \<Rightarrow>
          if txt = [] then False
          else
            let text_lower = py_lower txt in
            if list_ex (\<lambda>keyword. py_in keyword text_lower) ukraine_keywords then False
            else
              let has_political = list_ex (\<lambda>marker. py_in marker text_lower) political_markers;
                  has_strict_crypto = False
              in
              if list_ex (\<lambda>keyword. let keyword_lower = py_strip (py_lower keyword)
                                     in keyword_lower \<noteq> [] \<and> py_in keyword_lower text_lower)
                   strict_crypto_keywords
              then True
              else if has_political \<and> \<not> has_strict_crypto then False
              else
                let found_general =
                      filter (\<lambda>keyword. let keyword_lower = py_strip (py_lower keyword)
                                        in keyword_lower \<noteq> [] \<and> py_in keyword_lower text_lower)
                        general_keywords
                in
                if length found_general \<ge> 2
                then (if has_political \<and> \<not> has_strict_crypto then False else True)
                else
                  let has_general = list_ex (\<lambda>kw. py_in kw text_lower) general_keywords;
                      has_financial = list_ex (\<lambda>ctx. py_in ctx text_lower) financial_context;
                      has_tech = list_ex (\<lambda>ctx. py_in ctx text_lower) tech_context
                  in
                  if has_general \<and> (has_financial \<or> has_tech)
                  then (if has_political \<and> \<not> has_strict_crypto then False else True)
                  else False)"

section \<open>Configuration (\<open>config.py\<close>)\<close>

definition POSTS_PER_DAY :: int where
  "POSTS_PER_DAY = 999"

definition MIN_HOURS_BETWEEN_POSTS :: real where
  "MIN_HOURS_BETWEEN_POSTS = 0.5"

definition PRICE_POST_MORNING_HOUR :: int where
  "PRICE_POST_MORNING_HOUR = 11"

definition PRICE_POST_EVENING_HOUR :: int where
  "PRICE_POST_EVENING_HOUR = 22"

section \<open>Time\<close>

text \<open>
  A \<open>datetime\<close> is a count of microseconds on its own wall clock, counted from a
  midnight: the naive local clock of \<open>datetime.now()\<close>, or the Moscow clock of
  \<open>get_msk_time()\<close>. The difference of two readings is a \<open>timedelta\<close>, again in
  microseconds. \<open>total_seconds()\<close> and the divisions that follow it are floating point
  in Python; here they are exact reals.
\<close>

type_synonym datetime = int
type_synonym timedelta = int
type_synonym date = int

definition day_us :: int where
  "day_us = 86400000000"

definition total_seconds :: "timedelta \<Rightarrow> real" where
  "total_seconds d = real_of_int d / 1000000"

definition date_of :: "datetime \<Rightarrow> date" where
  "date_of t = t div day_us"

definition hour_of :: "datetime \<Rightarrow> int" where
  "hour_of t = t div 3600000000 mod 24"

definition minute_of :: "datetime \<Rightarrow> int" where
  "minute_of t = t div 60000000 mod 60"

text \<open>\<open>t.replace(hour=0, minute=0, second=0, microsecond=0)\<close>\<close>

definition midnight :: "datetime \<Rightarrow> datetime" where
  "midnight t = t - t mod day_us"

section \<open>The bot's state\<close>

text \<open>
  \<open>calls\<close> records the calls made to the external collaborators, oldest first; the
  source has no such field, it is the trace of its effects. \<open>state_file\<close> is the
  content of \<open>bot_state.json\<close>. The JSON arrays of the snapshot are read back with
  \<open>set(...)\<close>, so they are kept as sets; \<open>snap_last_post_time\<close> is the value
  \<open>datetime.fromisoformat\<close> gives back for the stored ISO string (\<open>None\<close> for
  \<open>null\<close>).
\<close>

datatype call = NewsSource | PriceSource | ContentGenerator | ImageGenerator
  | OpinionGenerator | ChannelPublisher

record snapshot =
  snap_last_post_time :: "datetime option"
  snap_published_posts_hashes :: "str set"
  snap_published_news_ids :: "int set"

datatype state_file = Missing | Corrupt | Snapshot snapshot

record bot =
  last_post_time :: "datetime option"
  posts_today :: int
  posts_target :: int
  reset_time :: datetime
  last_price_post_morning :: "date option"
  last_price_post_evening :: "date option"
  published_posts_hashes :: "str set"
  published_news_ids :: "int set"
  processed_message_ids :: "int set"
  state_file :: state_file
  calls :: "call list"

definition call :: "call \<Rightarrow> bot \<Rightarrow> bot" where
  "call c s = s\<lparr>calls := calls s @ [c]\<rparr>"

section \<open>Duplicate guard\<close>

definition get_post_hash :: "str \<Rightarrow> str" where
  "get_post_hash content =
     (let normalized = py_join (cp '' '') (py_split (py_lower (py_strip content)))
      in md5_hexdigest (encode_utf8 normalized))"

definition is_duplicate :: "bot \<Rightarrow> str \<Rightarrow> bool" where
  "is_duplicate s content \<longleftrightarrow> get_post_hash content \<in> published_posts_hashes s"

section \<open>Persistence\<close>

text \<open>
  Writing \<open>bot_state.json\<close> can fail; the exception is caught and logged. \<open>WriteFails\<close>
  leaves the file as it was (it could not be opened), \<open>WriteTorn\<close> leaves it
  truncated.
\<close>

datatype disk = WriteOk | WriteFails | WriteTorn

definition save_state :: "disk \<Rightarrow> bot \<Rightarrow> bot" where
  "save_state d s =
     (case d of
        WriteOk \<Rightarrow>
          s\<lparr>state_file := Snapshot
               \<lparr>snap_last_post_time = last_post_time s,
                snap_published_posts_hashes = published_posts_hashes s,
                snap_published_news_ids = published_news_ids s\<rparr>\<rparr>
      | WriteFails \<Rightarrow> s
      | WriteTorn \<Rightarrow> s\<lparr>state_file := Corrupt\<rparr>)"

text \<open>
  \<open>_load_state\<close> sets \<open>last_post_time\<close>, \<open>_loaded_hashes\<close> and
  \<open>_loaded_news_ids\<close>; a missing or unreadable file gives the defaults.
\<close>

definition load_state :: "state_file \<Rightarrow> datetime option \<times> str set \<times> int set" where
  "load_state f =
     (case f of
        Snapshot state \<Rightarrow>
          (snap_last_post_time state, snap_published_posts_hashes state,
           snap_published_news_ids state)
      | Missing \<Rightarrow> (None, {}, {})
      | Corrupt \<Rightarrow> (None, {}, {}))"

text \<open>
  \<open>TelegramChannelBot.__init__\<close>: \<open>f\<close> is \<open>bot_state.json\<close> as found on disk,
  \<open>processed\<close> the ids \<open>NewsParser\<close> read from \<open>processed_ids.txt\<close>, \<open>now\<close> the
  clock.
\<close>

definition init :: "state_file \<Rightarrow> int set \<Rightarrow> datetime \<Rightarrow> bot" where
  "init f processed now =
     (case load_state f of
        (loaded_time, loaded_hashes, loaded_news_ids) \<Rightarrow>
          \<lparr>last_post_time = loaded_time,
           posts_today = 0,
           posts_target = POSTS_PER_DAY,
           reset_time = midnight now,
           last_price_post_morning = None,
           last_price_post_evening = None,
           published_posts_hashes = loaded_hashes,
           published_news_ids = loaded_news_ids,
           processed_message_ids = processed,
           state_file = f,
           calls = []\<rparr>)"

text \<open>\<open>if news_id:\<close> is false for \<open>None\<close> and for \<open>0\<close>.\<close>

definition mark_as_published :: "disk \<Rightarrow> str \<Rightarrow> int option \<Rightarrow> bot \<Rightarrow> bot" where
  "mark_as_published d content news_id s =
     (let s1 = s\<lparr>published_posts_hashes :=
                    insert (get_post_hash content) (published_posts_hashes s)\<rparr>;
          s2 = (case news_id of
                  None \<Rightarrow> s1
                | Some i \<Rightarrow>
                    if i \<noteq> 0 then s1\<lparr>published_news_ids := insert i (published_news_ids s1)\<rparr>
                    else s1)
      in save_state d s2)"

section \<open>Publishing\<close>

text \<open>
  What the collaborators answer during one call of \<open>publish_post\<close>:
  \<open>image_result\<close> is what building the prompt and \<open>generate_image_async\<close> give (an
  image URL, \<open>None\<close>, or an exception); \<open>send_result\<close> is the \<open>send_photo\<close> or
  \<open>send_message\<close> of the \<open>try\<close> body; \<open>fallback_ok\<close> tells whether the
  \<open>send_message\<close> of the handler goes through; \<open>publish_now\<close> is \<open>datetime.now()\<close>
  after the send; \<open>disk\<close> is the fate of the write of \<open>bot_state.json\<close>.
  \<open>_add_opinion_text\<close> catches its own errors and only changes the text sent.
  The \<open>price_data\<close> argument only shapes the image prompt and is left out.
\<close>

datatype exc = TelegramError | OtherException

datatype 'a outcome = Returns 'a | Raises exc

record publish_env =
  image_result :: "str option outcome"
  send_result :: "unit outcome"
  fallback_ok :: bool
  publish_now :: datetime
  disk :: disk

text \<open>The bookkeeping after a successful send, the same three lines in each branch.\<close>

definition record_success :: "publish_env \<Rightarrow> str \<Rightarrow> bool \<Rightarrow> int option \<Rightarrow> bot \<Rightarrow> bot" where
  "record_success env content is_price_post news_id s =
     (let s1 = (if \<not> is_price_post then s\<lparr>last_post_time := Some (publish_now env)\<rparr> else s);
          s2 = s1\<lparr>posts_today := posts_today s1 + 1\<rparr>
      in mark_as_published (disk env) content news_id s2)"

text \<open>
  The two handlers: after \<open>TelegramError\<close> the text-only send is recorded with
  \<open>news_id=news_id\<close>, after any other exception with \<open>_mark_as_published(content)\<close>.
\<close>

definition publish_fallback ::
    "publish_env \<Rightarrow> exc \<Rightarrow> str \<Rightarrow> bool \<Rightarrow> int option \<Rightarrow> bot \<Rightarrow> bot \<times> bool" where
  "publish_fallback env e content is_price_post news_id s =
     (let s1 = call ChannelPublisher (call OpinionGenerator s) in
      if fallback_ok env then
        (case e of
           TelegramError \<Rightarrow> (record_success env content is_price_post news_id s1, True)
         | OtherException \<Rightarrow> (record_success env content is_price_post None s1, True))
      else (s1, False))"

definition publish_post ::
    "publish_env \<Rightarrow> str \<Rightarrow> bool \<Rightarrow> int option \<Rightarrow> bot \<Rightarrow> bot \<times> bool" where
  "publish_post env content is_price_post news_id s =
     (if is_duplicate s content then (s, False)
      else if (case news_id of None \<Rightarrow> False
               | Some i \<Rightarrow> i \<noteq> 0 \<and> i \<in> published_news_ids s) then (s, False)
      else
        let s1 = call ImageGenerator s in
        case image_result env of
          Raises e \<Rightarrow> publish_fallback env e content is_price_post news_id s1
        | Returns image_url \<Rightarrow>
            let s2 = call ChannelPublisher (call OpinionGenerator s1) in
            (case send_result env of
               Raises e \<Rightarrow> publish_fallback env e content is_price_post news_id s2
             | Returns _ \<Rightarrow> (record_success env content is_price_post news_id s2, True)))"

text \<open>
  \<open>publish_post_manual\<close> (the \<open>/p\<close> command): the caller brings the image, and a
  failed send is not retried.
\<close>

record manual_env =
  manual_send_ok :: bool
  manual_now :: datetime
  manual_disk :: disk

definition publish_post_manual :: "manual_env \<Rightarrow> str \<Rightarrow> bot \<Rightarrow> bot \<times> bool" where
  "publish_post_manual env content s =
     (if is_duplicate s content then (s, False)
      else
        let s1 = call ChannelPublisher (call OpinionGenerator s) in
        if manual_send_ok env then
          (let s2 = s1\<lparr>last_post_time := Some (manual_now env)\<rparr>;
               s3 = s2\<lparr>posts_today := posts_today s2 + 1\<rparr>
           in (mark_as_published (manual_disk env) content None s3, True))
        else (s1, False))"

section \<open>News ingestion\<close>

record message =
  msg_id :: int
  msg_text :: "str option"

record news_item =
  item_id :: int
  item_text :: str

definition is_service_message :: "str \<Rightarrow> bool" where
  "is_service_message t \<longleftrightarrow>
     prefix (cp ''Download'') t \<or> (prefix (cp ''http://'') t \<and> length t < 100)
     \<or> (prefix (cp ''https://'') t \<and> length t < 100)"

text \<open>
  The body of the loop over \<open>iter_messages\<close> in \<open>get_new_relevant_news\<close>: the items
  found, and the processed ids after the scan.
\<close>

fun scan_messages :: "message list \<Rightarrow> int set \<Rightarrow> news_item list \<times> int set" where
  "scan_messages [] processed = ([], processed)"
| "scan_messages (m # ms) processed =
     (if msg_id m \<in> processed then scan_messages ms processed
      else
        case msg_text m of
          None \<Rightarrow> scan_messages ms processed
        | Some raw \<Rightarrow>
            let t = py_strip raw in
            if raw = [] \<or> t = [] then scan_messages ms processed
            else if is_service_message t then scan_messages ms processed
            else if is_relevant_news (Some t) then
              (case scan_messages ms (insert (msg_id m) processed) of
                 (found, processed') \<Rightarrow> (\<lparr>item_id = msg_id m, item_text = t\<rparr> # found, processed'))
            else scan_messages ms processed)"

text \<open>
  What the news channel answers: nothing (no client), its latest messages, newest
  first, or an exception after some messages were read. In the last case the ids
  already marked stay marked and the result is \<open>[]\<close>.
\<close>

datatype feed = Unavailable | Messages "message list" | Interrupted "message list"

definition get_new_relevant_news :: "feed \<Rightarrow> nat \<Rightarrow> bot \<Rightarrow> news_item list \<times> bot" where
  "get_new_relevant_news f limit s =
     (case f of
        Unavailable \<Rightarrow> ([], s)
      | Messages ms \<Rightarrow>
          (case scan_messages (take limit ms) (processed_message_ids s) of
             (found, processed') \<Rightarrow> (found, s\<lparr>processed_message_ids := processed'\<rparr>))
      | Interrupted ms \<Rightarrow>
          (case scan_messages (take limit ms) (processed_message_ids s) of
             (found, processed') \<Rightarrow> ([], s\<lparr>processed_message_ids := processed'\<rparr>)))"

definition get_new_relevant_news_items :: "feed \<Rightarrow> bot \<Rightarrow> news_item list \<times> bot" where
  "get_new_relevant_news_items f s = get_new_relevant_news f 100 (call NewsSource s)"

definition get_fresh_news :: "feed \<Rightarrow> bot \<Rightarrow> str list \<times> bot" where
  "get_fresh_news f s =
     (case get_new_relevant_news_items f s of (news_items, s') \<Rightarrow> (map item_text news_items, s'))"

section \<open>Scheduler: the cycle track\<close>

definition should_publish_now :: "datetime \<Rightarrow> bot \<Rightarrow> bot \<times> bool" where
  "should_publish_now now s =
     (let s1 = (if now \<ge> reset_time s + day_us
                then s\<lparr>posts_today := 0, posts_target := POSTS_PER_DAY, reset_time := midnight now\<rparr>
                else s)
      in
      if posts_today s1 \<ge> posts_target s1 then (s1, False)
      else
        case last_post_time s1 of
          None \<Rightarrow> (s1, True)
        | Some last_time \<Rightarrow>
            let time_since_last = total_seconds (now - last_time) / 3600;
                min_interval = MIN_HOURS_BETWEEN_POSTS
            in if time_since_last < min_interval then (s1, False) else (s1, True))"

text \<open>
  The first lines of \<open>check_and_publish_new_news\<close>: the only gate of that path is the
  interval, with a tolerance of 0.1 minute.
\<close>

definition too_early :: "datetime \<Rightarrow> bot \<Rightarrow> bool" where
  "too_early now s =
     (case last_post_time s of
        None \<Rightarrow> False
      | Some last_time \<Rightarrow>
          let time_since_last = total_seconds (now - last_time) / 60;
              min_interval_minutes = MIN_HOURS_BETWEEN_POSTS * 60
          in time_since_last < min_interval_minutes - 0.1)"

text \<open>
  One call of \<open>check_and_publish_new_news\<close>: the clock, the feed, what
  \<open>deepseek.generate_post\<close> returns (it catches every exception and returns \<open>None\<close>),
  and the answers during \<open>publish_post\<close>.
\<close>

record cycle_env =
  cycle_now :: datetime
  cycle_feed :: feed
  cycle_generated :: "str option"
  cycle_publish :: publish_env

definition check_and_publish_new_news :: "cycle_env \<Rightarrow> bot \<Rightarrow> bot \<times> bool" where
  "check_and_publish_new_news env s =
     (if too_early (cycle_now env) s then (s, False)
      else
        case get_new_relevant_news_items (cycle_feed env) s of
          (news_items, s1) \<Rightarrow>
            if news_items = [] then (s1, False)
            else
              case filter (\<lambda>item. item_id item \<notin> published_news_ids s1) news_items of
                [] \<Rightarrow> (s1, False)
              | latest_news # _ \<Rightarrow>
                  let s2 = call ContentGenerator s1 in
                  (case cycle_generated env of
                     None \<Rightarrow> (s2, False)
                   | Some post_content \<Rightarrow>
                       if post_content = [] then (s2, False)
                       else if \<not> is_relevant_news (Some post_content) then (s2, False)
                       else publish_post (cycle_publish env) post_content False
                              (Some (item_id latest_news)) s2))"

definition generate_and_publish :: "cycle_env \<Rightarrow> bot \<Rightarrow> bot \<times> bool" where
  "generate_and_publish env s =
     (case should_publish_now (cycle_now env) s of
        (s1, ok) \<Rightarrow>
          if \<not> ok then (s1, False)
          else
            case get_fresh_news (cycle_feed env) s1 of
              (news, s2) \<Rightarrow>
                if news = [] then (s2, False)
                else
                  let s3 = call ContentGenerator s2 in
                  (case cycle_generated env of
                     None \<Rightarrow> (s3, False)
                   | Some post_content \<Rightarrow>
                       if post_content = [] then (s3, False)
                       else publish_post (cycle_publish env) post_content False None s3))"

section \<open>Scheduler: the price tracks\<close>

definition should_post_price_morning :: "datetime \<Rightarrow> bot \<Rightarrow> bool" where
  "should_post_price_morning msk_now s \<longleftrightarrow>
     hour_of msk_now = PRICE_POST_MORNING_HOUR \<and> minute_of msk_now \<le> 15
     \<and> last_price_post_morning s \<noteq> Some (date_of msk_now)"

definition should_post_price_evening :: "datetime \<Rightarrow> bot \<Rightarrow> bool" where
  "should_post_price_evening msk_now s \<longleftrightarrow>
     hour_of msk_now = PRICE_POST_EVENING_HOUR \<and> minute_of msk_now \<le> 15
     \<and> last_price_post_evening s \<noteq> Some (date_of msk_now)"

text \<open>
  One call of \<open>generate_and_publish_price\<close>: whether \<open>get_ton_price\<close> returned a quote,
  the generated text, the answers during \<open>publish_post\<close>, and the Moscow clock read
  after the publish.
\<close>

record price_env =
  price_available :: bool
  price_generated :: "str option"
  price_publish :: publish_env
  price_msk_now :: datetime

definition generate_and_publish_price :: "price_env \<Rightarrow> bool \<Rightarrow> bot \<Rightarrow> bot \<times> bool" where
  "generate_and_publish_price env is_morning s =
     (let s1 = call PriceSource s in
      if \<not> price_available env then (s1, False)
      else
        let s2 = call ContentGenerator s1 in
        case price_generated env of
          None \<Rightarrow> (s2, False)
        | Some post_content \<Rightarrow>
            if post_content = [] then (s2, False)
            else
              case publish_post (price_publish env) post_content True None s2 of
                (s3, success) \<Rightarrow>
                  if success then
                    (if is_morning
                     then (s3\<lparr>last_price_post_morning := Some (date_of (price_msk_now env))\<rparr>, True)
                     else (s3\<lparr>last_price_post_evening := Some (date_of (price_msk_now env))\<rparr>, True))
                  else (s3, False))"

section \<open>The main loop\<close>

text \<open>
  One pass of the \<open>while True\<close> body of \<open>run_loop\<close> after its sleep: the news check,
  then the morning and the evening price checks, each with its own reading of the
  Moscow clock. The source drops the three results; here they are returned, so that a
  run can be observed.
\<close>

record tick_env =
  tick_cycle :: cycle_env
  tick_msk_morning :: datetime
  tick_morning :: price_env
  tick_msk_evening :: datetime
  tick_evening :: price_env

record tick_result =
  news_posted :: bool
  morning_posted :: bool
  evening_posted :: bool

definition run_loop_iteration :: "tick_env \<Rightarrow> bot \<Rightarrow> bot \<times> tick_result" where
  "run_loop_iteration env s =
     (case check_and_publish_new_news (tick_cycle env) s of
        (s1, n) \<Rightarrow>
          case (if should_post_price_morning (tick_msk_morning env) s1
                then generate_and_publish_price (tick_morning env) True s1
                else (s1, False)) of
            (s2, m) \<Rightarrow>
              case (if should_post_price_evening (tick_msk_evening env) s2
                    then generate_and_publish_price (tick_evening env) False s2
                    else (s2, False)) of
                (s3, e) \<Rightarrow> (s3, \<lparr>news_posted = n, morning_posted = m, evening_posted = e\<rparr>))"

text \<open>The passes of the loop, one after the other, with the result of each.\<close>

fun run_loop_iterations :: "tick_env list \<Rightarrow> bot \<Rightarrow> bot \<times> tick_result list" where
  "run_loop_iterations [] s = (s, [])"
| "run_loop_iterations (env # envs) s =
     (case run_loop_iteration env s of
        (s1, r) \<Rightarrow>
          case run_loop_iterations envs s1 of
            (s2, rs) \<Rightarrow> (s2, r # rs))"

text \<open>
  The lines of \<open>run_loop\<close> before the loop: the two price checks, then the news
  check.
\<close>

definition run_loop_start :: "tick_env \<Rightarrow> bot \<Rightarrow> bot \<times> tick_result" where
  "run_loop_start env s =
     (case (if should_post_price_morning (tick_msk_morning env) s
            then generate_and_publish_price (tick_morning env) True s
            else (s, False)) of
        (s1, m) \<Rightarrow>
          case (if should_post_price_evening (tick_msk_evening env) s1
                then generate_and_publish_price (tick_evening env) False s1
                else (s1, False)) of
            (s2, e) \<Rightarrow>
              case check_and_publish_new_news (tick_cycle env) s2 of
                (s3, n) \<Rightarrow> (s3, \<lparr>news_posted = n, morning_posted = m, evening_posted = e\<rparr>))"

definition run_loop :: "tick_env \<Rightarrow> tick_env list \<Rightarrow> bot \<Rightarrow> bot \<times> tick_result list" where
  "run_loop start envs s =
     (case run_loop_start start s of
        (s1, r) \<Rightarrow>
          case run_loop_iterations envs s1 of
            (s2, rs) \<Rightarrow> (s2, r # rs))"

text \<open>Every reading of the Moscow clock during a pass of the loop falls on the day \<open>d\<close>.\<close>

definition on_day :: "date \<Rightarrow> tick_env \<Rightarrow> bool" where
  "on_day d env \<longleftrightarrow>
     date_of (tick_msk_morning env) = d \<and> date_of (price_msk_now (tick_morning env)) = d
     \<and> date_of (tick_msk_evening env) = d \<and> date_of (price_msk_now (tick_evening env)) = d"


section \<open>Texts that differ only by letter case and whitespace\<close>



text \<open>The two guards at the head of \<open>publish_post\<close>, taken together.\<close>

definition guards_pass :: "bot \<Rightarrow> str \<Rightarrow> int option \<Rightarrow> bool" where
  "guards_pass s c n \<longleftrightarrow>
     \<not> is_duplicate s c \<and> (\<forall>i. n = Some i \<and> i \<noteq> 0 \<longrightarrow> i \<notin> published_news_ids s)"

text \<open>
  Whether the sends of one \<open>publish_post\<close> go through: the send of the \<open>try\<close> body,
  or else the text-only send of the handler.
\<close>

definition delivered :: "publish_env \<Rightarrow> bool" where
  "delivered env \<longleftrightarrow>
     (case image_result env of
        Raises e \<Rightarrow> fallback_ok env
      | Returns image_url \<Rightarrow>
          (case send_result env of Raises e \<Rightarrow> fallback_ok env | Returns u \<Rightarrow> True))"

section \<open>Examples\<close>

text \<open>
  A bot started without a state file, at time 0; a publish in which the image
  generator returns no image and the text goes through; a news channel whose only
  message is \<open>btc\<close>; a pass of the news check, at time \<open>t\<close>, over that channel, in
  which the generator writes \<open>btc\<close> again.
\<close>

definition fresh_bot :: bot where
  "fresh_bot = init Missing {} 0"

definition plain_publish :: "datetime \<Rightarrow> publish_env" where
  "plain_publish t =
     \<lparr>image_result = Returns None, send_result = Returns (), fallback_ok = True,
      publish_now = t, disk = WriteOk\<rparr>"

definition btc_feed :: "int \<Rightarrow> feed" where
  "btc_feed i = Messages [\<lparr>msg_id = i, msg_text = Some (cp ''btc'')\<rparr>]"

definition btc_cycle :: "int \<Rightarrow> datetime \<Rightarrow> cycle_env" where
  "btc_cycle i t =
     \<lparr>cycle_now = t, cycle_feed = btc_feed i, cycle_generated = Some (cp ''btc''),
      cycle_publish = plain_publish t\<rparr>"

text \<open>
  A price post that goes through, with the Moscow clock at \<open>t\<close>; a pass of the main
  loop with every clock at \<open>t\<close>, in which the news channel is not reachable and the
  price posts go through.
\<close>

definition price_ok :: "datetime \<Rightarrow> price_env" where
  "price_ok t =
     \<lparr>price_available = True, price_generated = Some (cp ''TON is up''),
      price_publish = plain_publish t, price_msk_now = t\<rparr>"

definition price_tick :: "datetime \<Rightarrow> tick_env" where
  "price_tick t =
     \<lparr>tick_cycle = \<lparr>cycle_now = t, cycle_feed = Unavailable, cycle_generated = None,
                    cycle_publish = plain_publish t\<rparr>,
      tick_msk_morning = t, tick_morning = price_ok t,
      tick_msk_evening = t, tick_evening = price_ok t\<rparr>"

section \<open>Properties\<close>

subsection \<open>What each operation changes\<close>

lemma call_simps [simp]:
  "last_post_time (call c s) = last_post_time s"
  "posts_today (call c s) = posts_today s"
  "posts_target (call c s) = posts_target s"
  "reset_time (call c s) = reset_time s"
  "last_price_post_morning (call c s) = last_price_post_morning s"
  "last_price_post_evening (call c s) = last_price_post_evening s"
  "published_posts_hashes (call c s) = published_posts_hashes s"
  "published_news_ids (call c s) = published_news_ids s"
  "processed_message_ids (call c s) = processed_message_ids s"
  "state_file (call c s) = state_file s"
  "calls (call c s) = calls s @ [c]"
  by (simp_all add: call_def)

lemma is_duplicate_call [simp]: "is_duplicate (call c s) content = is_duplicate s content"
  by (simp add: is_duplicate_def)

lemma save_state_simps [simp]:
  "last_post_time (save_state d s) = last_post_time s"
  "posts_today (save_state d s) = posts_today s"
  "posts_target (save_state d s) = posts_target s"
  "reset_time (save_state d s) = reset_time s"
  "last_price_post_morning (save_state d s) = last_price_post_morning s"
  "last_price_post_evening (save_state d s) = last_price_post_evening s"
  "published_posts_hashes (save_state d s) = published_posts_hashes s"
  "published_news_ids (save_state d s) = published_news_ids s"
  "processed_message_ids (save_state d s) = processed_message_ids s"
  "calls (save_state d s) = calls s"
  by (simp_all add: save_state_def split: disk.splits)

lemma mark_as_published_simps [simp]:
  "last_post_time (mark_as_published d c n s) = last_post_time s"
  "posts_today (mark_as_published d c n s) = posts_today s"
  "posts_target (mark_as_published d c n s) = posts_target s"
  "reset_time (mark_as_published d c n s) = reset_time s"
  "last_price_post_morning (mark_as_published d c n s) = last_price_post_morning s"
  "last_price_post_evening (mark_as_published d c n s) = last_price_post_evening s"
  "published_posts_hashes (mark_as_published d c n s) =
     insert (get_post_hash c) (published_posts_hashes s)"
  "published_news_ids (mark_as_published d c n s) =
     (case n of None \<Rightarrow> published_news_ids s
      | Some i \<Rightarrow> if i \<noteq> 0 then insert i (published_news_ids s) else published_news_ids s)"
  "processed_message_ids (mark_as_published d c n s) = processed_message_ids s"
  "calls (mark_as_published d c n s) = calls s"
  by (simp_all add: mark_as_published_def Let_def split: option.splits)

lemma record_success_simps [simp]:
  "last_post_time (record_success env c p n s) =
     (if p then last_post_time s else Some (publish_now env))"
  "posts_today (record_success env c p n s) = posts_today s + 1"
  "posts_target (record_success env c p n s) = posts_target s"
  "reset_time (record_success env c p n s) = reset_time s"
  "last_price_post_morning (record_success env c p n s) = last_price_post_morning s"
  "last_price_post_evening (record_success env c p n s) = last_price_post_evening s"
  "published_posts_hashes (record_success env c p n s) =
     insert (get_post_hash c) (published_posts_hashes s)"
  "published_news_ids (record_success env c p n s) =
     (case n of None \<Rightarrow> published_news_ids s
      | Some i \<Rightarrow> if i \<noteq> 0 then insert i (published_news_ids s) else published_news_ids s)"
  "processed_message_ids (record_success env c p n s) = processed_message_ids s"
  "calls (record_success env c p n s) = calls s"
  by (simp_all add: record_success_def Let_def split: option.splits)

lemma publish_post_rejects:
  assumes "is_duplicate s c \<or> (\<exists>i. n = Some i \<and> i \<noteq> 0 \<and> i \<in> published_news_ids s)"
  shows "publish_post env c p n s = (s, False)"
  using assms by (auto simp: publish_post_def)

lemma publish_post_unguarded:
  assumes "guards_pass s c n"
  shows "publish_post env c p n s =
     (case image_result env of
        Raises e \<Rightarrow> publish_fallback env e c p n (call ImageGenerator s)
      | Returns image_url \<Rightarrow>
          (case send_result env of
             Raises e \<Rightarrow>
               publish_fallback env e c p n
                 (call ChannelPublisher (call OpinionGenerator (call ImageGenerator s)))
           | Returns u \<Rightarrow>
               (record_success env c p n
                  (call ChannelPublisher (call OpinionGenerator (call ImageGenerator s))), True)))"
  using assms by (cases n) (auto simp: guards_pass_def publish_post_def Let_def split: outcome.splits)

lemma publish_post_guarded:
  assumes "\<not> guards_pass s c n"
  shows "publish_post env c p n s = (s, False)"
  using assms by (intro publish_post_rejects) (auto simp: guards_pass_def)

lemma calls_append: "call c (s\<lparr>calls := calls s @ cs\<rparr>) = s\<lparr>calls := calls s @ (cs @ [c])\<rparr>"
  by (simp add: call_def)

lemma calls_start: "call c s = s\<lparr>calls := calls s @ [c]\<rparr>"
  by (simp add: call_def)

lemma publish_fallback_True:
  assumes "publish_fallback env e c p n (s\<lparr>calls := calls s @ ds\<rparr>) = (s', True)"
  shows "\<exists>n' cs. s' = record_success env c p n' (s\<lparr>calls := calls s @ cs\<rparr>) \<and> (n' = n \<or> n' = None)"
proof (cases e)
  case TelegramError
  with assms
  have "s' = record_success env c p n (s\<lparr>calls := calls s @ (ds @ [OpinionGenerator, ChannelPublisher])\<rparr>)"
    by (simp add: publish_fallback_def call_def Let_def split: if_splits)
  then show ?thesis by blast
next
  case OtherException
  with assms
  have "s' = record_success env c p None (s\<lparr>calls := calls s @ (ds @ [OpinionGenerator, ChannelPublisher])\<rparr>)"
    by (simp add: publish_fallback_def call_def Let_def split: if_splits)
  then show ?thesis by blast
qed

lemma publish_fallback_False:
  assumes "publish_fallback env e c p n (s\<lparr>calls := calls s @ ds\<rparr>) = (s', False)"
  shows "s' = s\<lparr>calls := calls s @ (ds @ [OpinionGenerator, ChannelPublisher])\<rparr>"
  using assms by (simp add: publish_fallback_def call_def Let_def split: if_splits exc.splits)

text \<open>A successful \<open>publish_post\<close> is \<open>record_success\<close> after some calls.\<close>

lemma publish_post_True:
  assumes "publish_post env c p n s = (s', True)"
  shows "\<exists>n' cs. s' = record_success env c p n' (s\<lparr>calls := calls s @ cs\<rparr>)
           \<and> (n' = n \<or> n' = None) \<and> guards_pass s c n"
proof -
  have g: "guards_pass s c n"
    using assms publish_post_guarded [of s c n env p] by auto
  have "\<exists>n' cs. s' = record_success env c p n' (s\<lparr>calls := calls s @ cs\<rparr>) \<and> (n' = n \<or> n' = None)"
  proof (cases "image_result env")
    case (Raises e)
    with assms g have "publish_fallback env e c p n (s\<lparr>calls := calls s @ [ImageGenerator]\<rparr>) = (s', True)"
      by (simp add: publish_post_unguarded calls_start)
    then show ?thesis by (rule publish_fallback_True)
  next
    case (Returns url)
    note img = this
    show ?thesis
    proof (cases "send_result env")
      case (Raises e)
      with assms g img
      have "publish_fallback env e c p n
              (s\<lparr>calls := calls s @ [ImageGenerator, OpinionGenerator, ChannelPublisher]\<rparr>) = (s', True)"
        by (simp add: publish_post_unguarded call_def)
      then show ?thesis by (rule publish_fallback_True)
    next
      case (Returns u)
      with assms g img
      have "s' = record_success env c p n
              (s\<lparr>calls := calls s @ [ImageGenerator, OpinionGenerator, ChannelPublisher]\<rparr>)"
        by (simp add: publish_post_unguarded call_def)
      then show ?thesis by blast
    qed
  qed
  with g show ?thesis by blast
qed

lemma publish_post_True_fields:
  assumes "publish_post env c p n s = (s', True)"
  shows "last_post_time s' = (if p then last_post_time s else Some (publish_now env))"
    and "posts_today s' = posts_today s + 1"
    and "posts_target s' = posts_target s"
    and "reset_time s' = reset_time s"
    and "last_price_post_morning s' = last_price_post_morning s"
    and "last_price_post_evening s' = last_price_post_evening s"
    and "published_posts_hashes s' = insert (get_post_hash c) (published_posts_hashes s)"
    and "processed_message_ids s' = processed_message_ids s"
    and "published_news_ids s \<subseteq> published_news_ids s'"
  using publish_post_True [OF assms] by (auto split: option.splits if_splits)

text \<open>A failed \<open>publish_post\<close> leaves everything but the trace of calls.\<close>

lemma publish_post_False:
  assumes "publish_post env c p n s = (s', False)"
  shows "\<exists>cs. s' = s\<lparr>calls := calls s @ cs\<rparr>
           \<and> set cs \<subseteq> {ImageGenerator, OpinionGenerator, ChannelPublisher}"
proof (cases "guards_pass s c n")
  case False
  with assms have "s' = s" by (simp add: publish_post_guarded)
  then show ?thesis by (intro exI [of _ "[]"]) simp
next
  case g: True
  show ?thesis
  proof (cases "image_result env")
    case (Raises e)
    with assms g have "publish_fallback env e c p n (s\<lparr>calls := calls s @ [ImageGenerator]\<rparr>) = (s', False)"
      by (simp add: publish_post_unguarded calls_start)
    from publish_fallback_False [OF this] show ?thesis by auto
  next
    case (Returns url)
    note img = this
    show ?thesis
    proof (cases "send_result env")
      case (Raises e)
      with assms g img
      have "publish_fallback env e c p n
              (s\<lparr>calls := calls s @ [ImageGenerator, OpinionGenerator, ChannelPublisher]\<rparr>) = (s', False)"
        by (simp add: publish_post_unguarded call_def)
      from publish_fallback_False [OF this] show ?thesis by auto
    next
      case (Returns u)
      with assms g img show ?thesis by (simp add: publish_post_unguarded)
    qed
  qed
qed

subsection \<open>The interval gates, in microseconds\<close>

lemma minutes_gate: "total_seconds d / 60 < MIN_HOURS_BETWEEN_POSTS * 60 - 0.1 \<longleftrightarrow> d < 1794000000"
  by (simp add: total_seconds_def MIN_HOURS_BETWEEN_POSTS_def field_simps) linarith?

lemma hours_gate: "total_seconds d / 3600 < MIN_HOURS_BETWEEN_POSTS \<longleftrightarrow> d < 1800000000"
  by (simp add: total_seconds_def MIN_HOURS_BETWEEN_POSTS_def field_simps) linarith?

lemma too_early_iff:
  "too_early now s \<longleftrightarrow> (\<exists>t0. last_post_time s = Some t0 \<and> now - t0 < 1794000000)"
proof (cases "last_post_time s")
  case None
  then show ?thesis by (simp add: too_early_def)
next
  case (Some t0)
  then show ?thesis
    unfolding too_early_def Let_def option.case minutes_gate by simp
qed

lemma too_early_call [simp]: "too_early now (call c s) = too_early now s"
  by (simp add: too_early_def)

subsection \<open>The news poll\<close>

lemma news_items_state:
  "\<exists>P. snd (get_new_relevant_news_items f s)
        = s\<lparr>processed_message_ids := P, calls := calls s @ [NewsSource]\<rparr>"
proof (cases f)
  case Unavailable
  then show ?thesis
    by (intro exI [of _ "processed_message_ids s"])
       (simp add: get_new_relevant_news_items_def get_new_relevant_news_def call_def)
next
  case (Messages ms)
  then show ?thesis
    by (intro exI [of _ "snd (scan_messages (take 100 ms) (processed_message_ids s))"])
       (simp add: get_new_relevant_news_items_def get_new_relevant_news_def call_def
             split: prod.splits)
next
  case (Interrupted ms)
  then show ?thesis
    by (intro exI [of _ "snd (scan_messages (take 100 ms) (processed_message_ids s))"])
       (simp add: get_new_relevant_news_items_def get_new_relevant_news_def call_def
             split: prod.splits)
qed

text \<open>The ways \<open>check_and_publish_new_news\<close> can go once the interval gate is passed.\<close>

lemma check_and_publish_cases:
  assumes "\<not> too_early (cycle_now env) s"
  obtains (no_news) P where
      "filter (\<lambda>item. item_id item \<notin> published_news_ids s)
         (fst (get_new_relevant_news_items (cycle_feed env) s)) = []"
      "check_and_publish_new_news env s
         = (s\<lparr>processed_message_ids := P, calls := calls s @ [NewsSource]\<rparr>, False)"
  | (not_generated) P where
      "\<not> (\<exists>c. cycle_generated env = Some c \<and> c \<noteq> [] \<and> is_relevant_news (Some c))"
      "check_and_publish_new_news env s
         = (s\<lparr>processed_message_ids := P, calls := calls s @ [NewsSource, ContentGenerator]\<rparr>, False)"
  | (published) P c i where
      "cycle_generated env = Some c" "is_relevant_news (Some c)"
      "i \<notin> published_news_ids s"
      "check_and_publish_new_news env s
         = publish_post (cycle_publish env) c False (Some i)
             (s\<lparr>processed_message_ids := P, calls := calls s @ [NewsSource, ContentGenerator]\<rparr>)"
proof -
  obtain items s1 where g: "get_new_relevant_news_items (cycle_feed env) s = (items, s1)"
    by (cases "get_new_relevant_news_items (cycle_feed env) s")
  with news_items_state [of "cycle_feed env" s] obtain P
    where s1: "s1 = s\<lparr>processed_message_ids := P, calls := calls s @ [NewsSource]\<rparr>"
    by auto
  have c2: "call ContentGenerator s1
      = s\<lparr>processed_message_ids := P, calls := calls s @ [NewsSource, ContentGenerator]\<rparr>"
    by (simp add: s1 call_def)
  show thesis
  proof (cases "filter (\<lambda>item. item_id item \<notin> published_news_ids s1) items")
    case Nil
    with assms g have "check_and_publish_new_news env s = (s1, False)"
      by (simp add: check_and_publish_new_news_def)
    moreover from Nil g have "filter (\<lambda>item. item_id item \<notin> published_news_ids s)
         (fst (get_new_relevant_news_items (cycle_feed env) s)) = []"
      by (simp add: s1)
    ultimately show thesis using s1 no_news by simp
  next
    case (Cons latest rest)
    then have ne: "items \<noteq> []" by auto
    from Cons have "latest \<in> set (filter (\<lambda>item. item_id item \<notin> published_news_ids s1) items)"
      by simp
    then have fresh: "item_id latest \<notin> published_news_ids s" by (simp add: s1)
    show thesis
    proof (cases "\<exists>c. cycle_generated env = Some c \<and> c \<noteq> [] \<and> is_relevant_news (Some c)")
      case True
      then obtain c where c: "cycle_generated env = Some c" "c \<noteq> []" "is_relevant_news (Some c)"
        by blast
      with assms g Cons ne
      have "check_and_publish_new_news env s
          = publish_post (cycle_publish env) c False (Some (item_id latest)) (call ContentGenerator s1)"
        by (simp add: check_and_publish_new_news_def Let_def)
      with c fresh show thesis using published c2 by simp
    next
      case False
      with assms g Cons ne
      have "check_and_publish_new_news env s = (call ContentGenerator s1, False)"
        by (auto simp: check_and_publish_new_news_def Let_def split: option.splits)
      with False show thesis using not_generated c2 by simp
    qed
  qed
qed

lemma check_and_publish_early:
  assumes "too_early (cycle_now env) s"
  shows "check_and_publish_new_news env s = (s, False)"
  using assms by (simp add: check_and_publish_new_news_def)

subsection \<open>A small feed\<close>

lemma btc_keyword: "cp ''btc'' \<in> set strict_crypto_keywords"
  by (simp add: strict_crypto_keywords_def cp_def)

lemma btc_relevant: "is_relevant_news (Some (cp ''btc''))"
proof -
  let ?t = "cp ''btc''"
  have low: "py_lower ?t = ?t" by (simp add: py_lower_def lower_cp_def cp_def)
  have strip: "py_strip ?t = ?t" by (simp add: py_strip_def isspace_def cp_def)
  have "\<not> list_ex (\<lambda>keyword. py_in keyword ?t) ukraine_keywords"
    by (simp add: ukraine_keywords_def cp_def)
  moreover have "list_ex (\<lambda>keyword. let keyword_lower = py_strip (py_lower keyword)
           in keyword_lower \<noteq> [] \<and> py_in keyword_lower ?t) strict_crypto_keywords"
    unfolding list_ex_iff
    by (rule bexI [OF _ btc_keyword]) (simp add: low strip, simp add: cp_def)
  ultimately show ?thesis
    by (simp add: is_relevant_news_def low Let_def, simp add: cp_def)
qed

subsection \<open>Normalisation of a post's text\<close>

lemma isspace_lower_cp [simp]: "isspace (lower_cp c) = isspace c"
  unfolding isspace_def lower_cp_def by (simp split: if_splits) presburger?











subsection \<open>The relevance filter\<close>






subsection \<open>The daily counter and the spacing timer\<close>

lemma should_publish_now_quota:
  assumes "now < reset_time s + day_us" and "posts_target s \<le> posts_today s"
  shows "\<not> snd (should_publish_now now s)"
  using assms by (simp add: should_publish_now_def Let_def)

text \<open>
  C9: every successful \<open>publish_post\<close> adds one to \<open>posts_today\<close>, price posts
  included; \<open>last_post_time\<close> is set to the clock for an ordinary post and left alone
  for a price post. So a price post uses up quota: if it brings \<open>posts_today\<close> to
  \<open>posts_target\<close>, \<open>should_publish_now\<close> refuses for the rest of the day.
\<close>

theorem publish_post_counts_price_posts:
  assumes "publish_post env content is_price_post news_id s = (s', True)"
  shows "posts_today s' = posts_today s + 1
    \<and> (is_price_post \<longrightarrow> last_post_time s' = last_post_time s)
    \<and> (\<not> is_price_post \<longrightarrow> last_post_time s' = Some (publish_now env))
    \<and> (is_price_post \<and> posts_target s \<le> posts_today s + 1 \<and> now < reset_time s + day_us
         \<longrightarrow> \<not> snd (should_publish_now now s'))"
  using publish_post_True_fields [OF assms] should_publish_now_quota [of now s']
  by simp

lemma fresh_bot_simps [simp]:
  "last_post_time fresh_bot = None"
  "posts_today fresh_bot = 0"
  "posts_target fresh_bot = 999"
  "reset_time fresh_bot = 0"
  "last_price_post_morning fresh_bot = None"
  "last_price_post_evening fresh_bot = None"
  "published_posts_hashes fresh_bot = {}"
  "published_news_ids fresh_bot = {}"
  "processed_message_ids fresh_bot = {}"
  "state_file fresh_bot = Missing"
  "calls fresh_bot = []"
  by (simp_all add: fresh_bot_def init_def load_state_def POSTS_PER_DAY_def midnight_def)

lemma plain_publish_simps [simp]:
  "image_result (plain_publish t) = Returns None"
  "send_result (plain_publish t) = Returns ()"
  "fallback_ok (plain_publish t) = True"
  "publish_now (plain_publish t) = t"
  "disk (plain_publish t) = WriteOk"
  by (simp_all add: plain_publish_def)

lemma plain_publish_publishes:
  assumes "guards_pass s c n"
  shows "publish_post (plain_publish t) c p n s
     = (record_success (plain_publish t) c p n
          (s\<lparr>calls := calls s @ [ImageGenerator, OpinionGenerator, ChannelPublisher]\<rparr>), True)"
  using assms by (simp add: publish_post_unguarded call_def)

lemma guards_pass_empty:
  "published_posts_hashes s = {} \<Longrightarrow> published_news_ids s = {} \<Longrightarrow> guards_pass s c n"
  by (simp add: guards_pass_def is_duplicate_def)

theorem publish_post_counts_price_posts_witness:
  "publish_post (plain_publish 100) (cp ''TON is up'') True None (fresh_bot\<lparr>posts_today := 998\<rparr>)
     = (fst (publish_post (plain_publish 100) (cp ''TON is up'') True None
               (fresh_bot\<lparr>posts_today := 998\<rparr>)), True)
   \<and> posts_today (fst (publish_post (plain_publish 100) (cp ''TON is up'') True None
               (fresh_bot\<lparr>posts_today := 998\<rparr>))) = 999
   \<and> last_post_time (fst (publish_post (plain_publish 100) (cp ''TON is up'') True None
               (fresh_bot\<lparr>posts_today := 998\<rparr>))) = None
   \<and> \<not> snd (should_publish_now 200
         (fst (publish_post (plain_publish 100) (cp ''TON is up'') True None
               (fresh_bot\<lparr>posts_today := 998\<rparr>))))"
proof -
  let ?s = "fresh_bot\<lparr>posts_today := 998\<rparr>"
  let ?r = "publish_post (plain_publish 100) (cp ''TON is up'') True None ?s"
  have "guards_pass ?s (cp ''TON is up'') None"
    by (rule guards_pass_empty) simp_all
  then have h: "?r = (fst ?r, True)"
    by (simp add: plain_publish_publishes)
  from publish_post_counts_price_posts [OF h, of 200] h show ?thesis
    by (simp add: day_us_def)
qed

subsection \<open>Outcomes as conditions\<close>

lemma guards_pass_cong:
  assumes "published_posts_hashes s' = published_posts_hashes s"
    and "published_news_ids s' = published_news_ids s"
  shows "guards_pass s' c n = guards_pass s c n"
  using assms by (simp add: guards_pass_def is_duplicate_def)

lemma publish_post_snd: "snd (publish_post env c p n s) \<longleftrightarrow> guards_pass s c n \<and> delivered env"
proof (cases "guards_pass s c n")
  case False
  then show ?thesis by (simp add: publish_post_guarded)
next
  case True
  then show ?thesis
    by (simp add: publish_post_unguarded publish_fallback_def delivered_def Let_def
          split: outcome.splits exc.splits)
qed

lemma news_items_fst:
  assumes "processed_message_ids s' = processed_message_ids s"
  shows "fst (get_new_relevant_news_items f s') = fst (get_new_relevant_news_items f s)"
  using assms
  by (cases f)
     (simp_all add: get_new_relevant_news_items_def get_new_relevant_news_def split: prod.splits)

lemma news_items_snd:
  "published_posts_hashes (snd (get_new_relevant_news_items f s)) = published_posts_hashes s"
  "published_news_ids (snd (get_new_relevant_news_items f s)) = published_news_ids s"
  using news_items_state [of f s] by auto

lemma check_and_publish_snd:
  "snd (check_and_publish_new_news env s) \<longleftrightarrow>
     \<not> too_early (cycle_now env) s
     \<and> (\<exists>latest rest c.
           filter (\<lambda>item. item_id item \<notin> published_news_ids s)
             (fst (get_new_relevant_news_items (cycle_feed env) s)) = latest # rest
           \<and> cycle_generated env = Some c \<and> c \<noteq> [] \<and> is_relevant_news (Some c)
           \<and> guards_pass s c (Some (item_id latest)) \<and> delivered (cycle_publish env))"
proof (cases "too_early (cycle_now env) s")
  case True
  then show ?thesis by (simp add: check_and_publish_early)
next
  case early: False
  obtain items s1 where g: "get_new_relevant_news_items (cycle_feed env) s = (items, s1)"
    by (cases "get_new_relevant_news_items (cycle_feed env) s")
  from news_items_snd [of "cycle_feed env" s] g
  have s1: "published_posts_hashes s1 = published_posts_hashes s"
    "published_news_ids s1 = published_news_ids s"
    by simp_all
  have gp: "guards_pass (call ContentGenerator s1) c n = guards_pass s c n" for c n
    by (rule guards_pass_cong) (simp_all add: s1)
  show ?thesis
  proof (cases "filter (\<lambda>item. item_id item \<notin> published_news_ids s) items")
    case Nil
    with early g s1 show ?thesis
      by (simp add: check_and_publish_new_news_def)
  next
    case (Cons latest rest)
    then have "items \<noteq> []" by auto
    with early g s1 Cons show ?thesis
      by (cases "cycle_generated env")
         (simp_all add: check_and_publish_new_news_def Let_def publish_post_snd gp)
  qed
qed

lemma should_publish_now_snd:
  "snd (should_publish_now now s) \<longleftrightarrow>
     posts_today (fst (should_publish_now now s)) < posts_target (fst (should_publish_now now s))
     \<and> (\<forall>t0. last_post_time s = Some t0 \<longrightarrow> \<not> total_seconds (now - t0) / 3600 < MIN_HOURS_BETWEEN_POSTS)"
  by (cases "last_post_time s") (auto simp: should_publish_now_def Let_def)

lemma generate_and_publish_snd:
  "snd (generate_and_publish env s) \<Longrightarrow> snd (should_publish_now (cycle_now env) s)"
  by (cases "should_publish_now (cycle_now env) s")
     (auto simp: generate_and_publish_def split: if_splits)

subsection \<open>The examples\<close>

lemma md5_btc: "md5_hexdigest [0x62, 0x74, 0x63] = cp ''1c762234363a3edc10a2930d330db099''"
  by code_simp

lemma md5_hello:
  "md5_hexdigest [0x68, 0x65, 0x6C, 0x6C, 0x6F] = cp ''5d41402abc4b2a76b9719d911017c592''"
  by code_simp

lemma hash_btc: "get_post_hash (cp ''btc'') = cp ''1c762234363a3edc10a2930d330db099''"
proof -
  have "py_join (cp '' '') (py_split (py_lower (py_strip (cp ''btc'')))) = [0x62, 0x74, 0x63]"
    by (simp add: cp_def py_strip_def py_lower_def py_split_def isspace_def lower_cp_def)
  moreover have "encode_utf8 [0x62, 0x74, 0x63] = [0x62, 0x74, 0x63]"
    by (simp add: encode_utf8_def utf8_char_def)
  ultimately show ?thesis by (simp add: get_post_hash_def md5_btc)
qed

lemma hash_hello: "get_post_hash (cp ''hello'') = cp ''5d41402abc4b2a76b9719d911017c592''"
proof -
  have "py_join (cp '' '') (py_split (py_lower (py_strip (cp ''hello''))))
          = [0x68, 0x65, 0x6C, 0x6C, 0x6F]"
    by (simp add: cp_def py_strip_def py_lower_def py_split_def isspace_def lower_cp_def)
  moreover have "encode_utf8 [0x68, 0x65, 0x6C, 0x6C, 0x6F] = [0x68, 0x65, 0x6C, 0x6C, 0x6F]"
    by (simp add: encode_utf8_def utf8_char_def)
  ultimately show ?thesis by (simp add: get_post_hash_def md5_hello)
qed

lemma hash_btc_hello: "get_post_hash (cp ''btc'') \<noteq> get_post_hash (cp ''hello'')"
  unfolding hash_btc hash_hello by (simp add: cp_def)

lemma btc_strip: "py_strip (cp ''btc'') = cp ''btc''"
  by (simp add: py_strip_def isspace_def cp_def)

lemma btc_not_service: "\<not> is_service_message (cp ''btc'')"
  by (simp add: is_service_message_def cp_def)

lemma btc_feed_items:
  assumes "i \<notin> processed_message_ids s"
  shows "fst (get_new_relevant_news_items (btc_feed i) s) = [\<lparr>item_id = i, item_text = cp ''btc''\<rparr>]"
proof -
  have "cp ''btc'' \<noteq> []" by (simp add: cp_def)
  with assms show ?thesis
    by (simp add: get_new_relevant_news_items_def get_new_relevant_news_def btc_feed_def
          btc_strip btc_not_service btc_relevant)
qed

text \<open>When the pass over the \<open>btc\<close> channel publishes.\<close>

lemma btc_cycle_snd:
  assumes "i \<notin> processed_message_ids s" and "i \<notin> published_news_ids s"
    and "get_post_hash (cp ''btc'') \<notin> published_posts_hashes s"
  shows "snd (check_and_publish_new_news (btc_cycle i t) s) \<longleftrightarrow> \<not> too_early t s"
proof -
  have "cp ''btc'' \<noteq> []" by (simp add: cp_def)
  moreover have "delivered (plain_publish t)" by (simp add: delivered_def)
  moreover have "guards_pass s (cp ''btc'') (Some i)"
    using assms by (simp add: guards_pass_def is_duplicate_def)
  ultimately show ?thesis
    using assms
    by (simp add: check_and_publish_snd btc_cycle_def btc_feed_items [unfolded btc_feed_def]
          btc_feed_def btc_relevant)
qed

lemma seconds_1794: "total_seconds d < 1794 \<longleftrightarrow> d < 1794000000"
  by (simp add: total_seconds_def field_simps) linarith?

lemma seconds_1800: "total_seconds d < 1800 \<longleftrightarrow> d < 1800000000"
  by (simp add: total_seconds_def field_simps) linarith?

lemma hours_gate': "total_seconds d < MIN_HOURS_BETWEEN_POSTS * 3600 \<longleftrightarrow> d < 1800000000"
  using hours_gate [of d] by (simp add: field_simps)

lemma should_publish_now_last [simp]:
  "last_post_time (fst (should_publish_now now s)) = last_post_time s"
  by (simp add: should_publish_now_def Let_def split: option.splits)

lemma should_publish_now_early:
  assumes "last_post_time s = Some t0" and "now - t0 < 1800000000"
  shows "\<not> snd (should_publish_now now s)"
  using assms by (simp add: should_publish_now_snd hours_gate')

lemma check_and_publish_True:
  assumes "check_and_publish_new_news env s = (s', True)"
  shows "\<not> too_early (cycle_now env) s
    \<and> last_post_time s' = Some (publish_now (cycle_publish env))
    \<and> posts_today s' = posts_today s + 1"
proof -
  have early: "\<not> too_early (cycle_now env) s"
    using assms check_and_publish_early [of env s] by auto
  from early have "last_post_time s' = Some (publish_now (cycle_publish env))
    \<and> posts_today s' = posts_today s + 1"
  proof (cases rule: check_and_publish_cases)
    case (no_news P)
    with assms show ?thesis by simp
  next
    case (not_generated P)
    with assms show ?thesis by simp
  next
    case (published P c i)
    with assms have p: "publish_post (cycle_publish env) c False (Some i)
        (s\<lparr>processed_message_ids := P, calls := calls s @ [NewsSource, ContentGenerator]\<rparr>) = (s', True)"
      by simp
    from publish_post_True_fields(1,2) [OF p] show ?thesis by simp
  qed
  with early show ?thesis by simp
qed

text \<open>
  C2, as the code has it: the news check of the main loop refuses, without any call
  and without touching the state, while less than 29.9 minutes (1794 s) have passed
  since \<open>last_post_time\<close>: the minimum interval less a tolerance of 0.1 minute;
  \<open>should_publish_now\<close>, and with it \<open>generate_and_publish\<close>, refuses while less than
  30 minutes (1800 s) have passed. Hence a news check that publishes finds the previous
  \<open>last_post_time\<close> at least 1794 s back, and sets it to the clock read at the publish.
\<close>

theorem cycle_interval_gate:
  assumes "last_post_time s = Some t0"
  shows "(total_seconds (cycle_now env - t0) < 1794
           \<longrightarrow> check_and_publish_new_news env s = (s, False))
    \<and> (total_seconds (cycle_now env - t0) < 1800
           \<longrightarrow> \<not> snd (should_publish_now (cycle_now env) s) \<and> \<not> snd (generate_and_publish env s))
    \<and> (check_and_publish_new_news env s = (s', True)
           \<longrightarrow> \<not> total_seconds (cycle_now env - t0) < 1794
               \<and> last_post_time s' = Some (publish_now (cycle_publish env)))"
proof (intro conjI impI)
  assume "total_seconds (cycle_now env - t0) < 1794"
  with assms have "too_early (cycle_now env) s"
    by (simp add: too_early_iff seconds_1794)
  then show "check_and_publish_new_news env s = (s, False)"
    by (rule check_and_publish_early)
next
  assume "total_seconds (cycle_now env - t0) < 1800"
  with assms show a: "\<not> snd (should_publish_now (cycle_now env) s)"
    by (simp add: should_publish_now_early seconds_1800)
  then show "\<not> snd (generate_and_publish env s)"
    using generate_and_publish_snd by blast
next
  assume p: "check_and_publish_new_news env s = (s', True)"
  from check_and_publish_True [OF p] assms
  show "\<not> total_seconds (cycle_now env - t0) < 1794"
    by (simp add: too_early_iff seconds_1794)
  from check_and_publish_True [OF p]
  show "last_post_time s' = Some (publish_now (cycle_publish env))" by simp
qed

lemma fresh_bot_with_last [simp]:
  "posts_today (fresh_bot\<lparr>last_post_time := x\<rparr>) = 0"
  "posts_target (fresh_bot\<lparr>last_post_time := x\<rparr>) = 999"
  "reset_time (fresh_bot\<lparr>last_post_time := x\<rparr>) = 0"
  by simp_all

theorem cycle_interval_gate_witness:
  "last_post_time (fresh_bot\<lparr>last_post_time := Some 0\<rparr>) = Some 0
   \<and> total_seconds (1000000000 - 0) < 1794
   \<and> check_and_publish_new_news (btc_cycle 7 1000000000) (fresh_bot\<lparr>last_post_time := Some 0\<rparr>)
       = (fresh_bot\<lparr>last_post_time := Some 0\<rparr>, False)
   \<and> \<not> snd (generate_and_publish (btc_cycle 7 1000000000) (fresh_bot\<lparr>last_post_time := Some 0\<rparr>))
   \<and> snd (check_and_publish_new_news (btc_cycle 7 1794000000) (fresh_bot\<lparr>last_post_time := Some 0\<rparr>))
   \<and> last_post_time
        (fst (check_and_publish_new_news (btc_cycle 7 1794000000) (fresh_bot\<lparr>last_post_time := Some 0\<rparr>)))
       = Some 1794000000"
proof -
  let ?s = "fresh_bot\<lparr>last_post_time := Some 0\<rparr>"
  let ?r = "check_and_publish_new_news (btc_cycle 7 1794000000) ?s"
  have l: "last_post_time ?s = Some 0" by simp
  have e: "total_seconds (cycle_now (btc_cycle 7 1000000000) - 0) < 1794"
    by (simp add: total_seconds_def btc_cycle_def)
  then have e': "total_seconds (cycle_now (btc_cycle 7 1000000000) - 0) < 1800" by simp
  have t: "snd ?r"
    by (simp add: btc_cycle_snd too_early_iff)
  then have p: "?r = (fst ?r, True)"
    by (simp add: prod_eq_iff)
  note early = cycle_interval_gate [OF l, where env = "btc_cycle 7 1000000000"]
  note late = cycle_interval_gate [OF l, where env = "btc_cycle 7 1794000000" and s' = "fst ?r"]
  from early e have 1: "check_and_publish_new_news (btc_cycle 7 1000000000) ?s = (?s, False)"
    by blast
  from early e' have 2: "\<not> snd (generate_and_publish (btc_cycle 7 1000000000) ?s)"
    by blast
  from late p have "last_post_time (fst ?r) = Some (publish_now (cycle_publish (btc_cycle 7 1794000000)))"
    by blast
  then have 3: "last_post_time (fst ?r) = Some 1794000000"
    by (simp add: btc_cycle_def)
  have 4: "total_seconds (1000000000 - 0) < 1794" by (simp add: total_seconds_def)
  from l 1 2 3 4 t show ?thesis by blast
qed

text \<open>
  The claim as stated fails: 29 minutes 55 seconds after the last post, which is less
  than \<open>MIN_HOURS_BETWEEN_POSTS\<close>, the news check publishes.
\<close>

theorem min_interval_counterexample:
  "total_seconds (1795000000 - 0) / 3600 < MIN_HOURS_BETWEEN_POSTS
   \<and> snd (check_and_publish_new_news (btc_cycle 7 1795000000) (fresh_bot\<lparr>last_post_time := Some 0\<rparr>))"
  by (simp add: btc_cycle_snd too_early_iff hours_gate')

lemma minutes_gate': "total_seconds d < MIN_HOURS_BETWEEN_POSTS * 60 * 60 - 6 \<longleftrightarrow> d < 1794000000"
  using minutes_gate [of d] by (simp add: field_simps)

lemma generate_and_publish_btc:
  "snd (generate_and_publish (btc_cycle 7 0) fresh_bot)"
proof -
  have sp: "should_publish_now 0 fresh_bot = (fresh_bot, True)"
    by (simp add: should_publish_now_def Let_def day_us_def)
  have ne: "cp ''btc'' \<noteq> []" by (simp add: cp_def)
  obtain items s2 where g: "get_new_relevant_news_items (btc_feed 7) fresh_bot = (items, s2)"
    by (cases "get_new_relevant_news_items (btc_feed 7) fresh_bot")
  with btc_feed_items [of 7 fresh_bot] have items: "items = [\<lparr>item_id = 7, item_text = cp ''btc''\<rparr>]"
    by simp
  from g news_items_snd [of "btc_feed 7" fresh_bot]
  have "guards_pass (call ContentGenerator s2) (cp ''btc'') None"
    by (simp add: guards_pass_def is_duplicate_def)
  moreover have "delivered (plain_publish 0)" by (simp add: delivered_def)
  ultimately show ?thesis
    using sp g items ne
    by (simp add: generate_and_publish_def get_fresh_news_def btc_cycle_def Let_def publish_post_snd)
qed

text \<open>
  C6, as the code has it: \<open>should_publish_now\<close> grants a cycle post only if the daily
  quota is not used up (after its reset at a new day) and the minimum interval has
  passed since the last post, if there was one, and it gates \<open>generate_and_publish\<close>.
  The news check that the main loop runs is gated by the interval alone, less 0.1
  minute: whether it publishes does not depend on \<open>posts_today\<close> or \<open>posts_target\<close>.
\<close>

theorem cycle_eligibility:
  "(snd (should_publish_now now s)
      \<longrightarrow> posts_today (fst (should_publish_now now s)) < posts_target (fst (should_publish_now now s))
          \<and> (\<forall>t0. last_post_time s = Some t0
                \<longrightarrow> total_seconds (now - t0) / 3600 \<ge> MIN_HOURS_BETWEEN_POSTS))
   \<and> (snd (generate_and_publish env s) \<longrightarrow> snd (should_publish_now (cycle_now env) s))
   \<and> (snd (check_and_publish_new_news env s)
      \<longrightarrow> (\<forall>t0. last_post_time s = Some t0
                \<longrightarrow> total_seconds (cycle_now env - t0) / 60 \<ge> MIN_HOURS_BETWEEN_POSTS * 60 - 0.1))
   \<and> snd (check_and_publish_new_news env (s\<lparr>posts_today := n, posts_target := m\<rparr>))
       = snd (check_and_publish_new_news env s)"
proof (intro conjI impI allI)
  assume a: "snd (should_publish_now now s)"
  then show "posts_today (fst (should_publish_now now s)) < posts_target (fst (should_publish_now now s))"
    using should_publish_now_snd [of now s] by blast
  fix t0 assume "last_post_time s = Some t0"
  with a should_publish_now_snd [of now s]
  have "\<not> total_seconds (now - t0) / 3600 < MIN_HOURS_BETWEEN_POSTS" by blast
  then show "MIN_HOURS_BETWEEN_POSTS \<le> total_seconds (now - t0) / 3600" by linarith
next
  assume "snd (generate_and_publish env s)"
  then show "snd (should_publish_now (cycle_now env) s)" by (rule generate_and_publish_snd)
next
  fix t0 assume "snd (check_and_publish_new_news env s)" and l: "last_post_time s = Some t0"
  then have "\<not> too_early (cycle_now env) s" by (simp add: check_and_publish_snd)
  with l have "\<not> total_seconds (cycle_now env - t0) / 60 < MIN_HOURS_BETWEEN_POSTS * 60 - 0.1"
    unfolding too_early_def Let_def by simp
  then show "MIN_HOURS_BETWEEN_POSTS * 60 - 0.1 \<le> total_seconds (cycle_now env - t0) / 60"
    by linarith
next
  let ?s = "s\<lparr>posts_today := n, posts_target := m\<rparr>"
  have "fst (get_new_relevant_news_items (cycle_feed env) ?s)
      = fst (get_new_relevant_news_items (cycle_feed env) s)"
    by (rule news_items_fst) simp
  moreover have "guards_pass ?s c i = guards_pass s c i" for c i
    by (rule guards_pass_cong) simp_all
  moreover have "too_early (cycle_now env) ?s = too_early (cycle_now env) s"
    by (simp add: too_early_def)
  ultimately show "snd (check_and_publish_new_news env ?s) = snd (check_and_publish_new_news env s)"
    by (simp add: check_and_publish_snd)
qed

theorem cycle_eligibility_witness:
  "snd (should_publish_now 0 fresh_bot)
   \<and> posts_today (fst (should_publish_now 0 fresh_bot)) < posts_target (fst (should_publish_now 0 fresh_bot))
   \<and> snd (generate_and_publish (btc_cycle 7 0) fresh_bot)
   \<and> snd (check_and_publish_new_news (btc_cycle 7 0) fresh_bot)
   \<and> snd (check_and_publish_new_news (btc_cycle 7 0) (fresh_bot\<lparr>posts_today := 999, posts_target := 999\<rparr>))"
proof -
  have a: "snd (should_publish_now 0 fresh_bot)"
    by (simp add: should_publish_now_def Let_def day_us_def)
  have b: "snd (generate_and_publish (btc_cycle 7 0) fresh_bot)"
    by (rule generate_and_publish_btc)
  have c: "snd (check_and_publish_new_news (btc_cycle 7 0) fresh_bot)"
    by (simp add: btc_cycle_snd too_early_iff)
  note th = cycle_eligibility [where now = 0 and s = fresh_bot and env = "btc_cycle 7 0"
      and n = 999 and m = 999]
  from th a b c show ?thesis by (simp add: btc_cycle_def)
qed

text \<open>
  The claim as stated fails: with the daily quota used up, the news check of the main
  loop still publishes.
\<close>

theorem daily_quota_counterexample:
  "\<not> posts_today (fresh_bot\<lparr>posts_today := 999\<rparr>) < posts_target (fresh_bot\<lparr>posts_today := 999\<rparr>)
   \<and> snd (check_and_publish_new_news (btc_cycle 7 0) (fresh_bot\<lparr>posts_today := 999\<rparr>))"
  by (simp add: btc_cycle_snd too_early_iff)

subsection \<open>Manual publication\<close>

lemma publish_post_manual_snd:
  "snd (publish_post_manual env c s) \<longleftrightarrow> \<not> is_duplicate s c \<and> manual_send_ok env"
  by (simp add: publish_post_manual_def Let_def)

lemma publish_post_manual_True:
  assumes "publish_post_manual env c s = (s', True)"
  shows "last_post_time s' = Some (manual_now env)"
    and "posts_today s' = posts_today s + 1"
    and "published_posts_hashes s' = insert (get_post_hash c) (published_posts_hashes s)"
    and "published_news_ids s' = published_news_ids s"
    and "processed_message_ids s' = processed_message_ids s"
  using assms by (auto simp: publish_post_manual_def Let_def split: if_splits)

text \<open>
  C10, as the code has it: whether a manual publication goes out depends on the
  content-hash guard and on the send alone; no source id, interval or quota is
  looked at. A successful one sets \<open>last_post_time\<close> to the clock and adds one to
  \<open>posts_today\<close>, so for the next 29.9 minutes (1794 s) the news check of the main loop
  refuses, and for the next 30 minutes (1800 s) \<open>generate_and_publish\<close> does.
\<close>

theorem manual_publish_guard:
  "(snd (publish_post_manual env c s) \<longleftrightarrow> \<not> is_duplicate s c \<and> manual_send_ok env)
   \<and> (publish_post_manual env c s = (s', True)
        \<longrightarrow> last_post_time s' = Some (manual_now env)
          \<and> posts_today s' = posts_today s + 1
          \<and> (\<forall>cenv. total_seconds (cycle_now cenv - manual_now env) < 1794
                \<longrightarrow> check_and_publish_new_news cenv s' = (s', False))
          \<and> (\<forall>cenv. total_seconds (cycle_now cenv - manual_now env) < 1800
                \<longrightarrow> \<not> snd (generate_and_publish cenv s')))"
proof -
  have 1: "snd (publish_post_manual env c s) \<longleftrightarrow> \<not> is_duplicate s c \<and> manual_send_ok env"
    by (rule publish_post_manual_snd)
  have 2: "last_post_time s' = Some (manual_now env)
      \<and> posts_today s' = posts_today s + 1
      \<and> (\<forall>cenv. total_seconds (cycle_now cenv - manual_now env) < 1794
            \<longrightarrow> check_and_publish_new_news cenv s' = (s', False))
      \<and> (\<forall>cenv. total_seconds (cycle_now cenv - manual_now env) < 1800
            \<longrightarrow> \<not> snd (generate_and_publish cenv s'))"
    if p: "publish_post_manual env c s = (s', True)"
  proof -
    have l: "last_post_time s' = Some (manual_now env)"
      by (rule publish_post_manual_True(1) [OF p])
    have n: "posts_today s' = posts_today s + 1"
      by (rule publish_post_manual_True(2) [OF p])
    have "check_and_publish_new_news cenv s' = (s', False)"
      if "total_seconds (cycle_now cenv - manual_now env) < 1794" for cenv :: cycle_env
      using that l by (intro check_and_publish_early) (simp add: too_early_iff seconds_1794)
    moreover have "\<not> snd (generate_and_publish cenv s')"
      if "total_seconds (cycle_now cenv - manual_now env) < 1800" for cenv :: cycle_env
      using that l should_publish_now_early [of s' "manual_now env" "cycle_now cenv"]
        generate_and_publish_snd [of cenv s']
      by (auto simp: seconds_1800)
    ultimately show ?thesis using l n by blast
  qed
  from 1 2 show ?thesis by blast
qed


theorem manual_publish_guard_witness:
  "publish_post_manual \<lparr>manual_send_ok = True, manual_now = 0, manual_disk = WriteOk\<rparr>
       (cp ''hello'') fresh_bot
     = (fst (publish_post_manual \<lparr>manual_send_ok = True, manual_now = 0, manual_disk = WriteOk\<rparr>
          (cp ''hello'') fresh_bot), True)
   \<and> total_seconds (cycle_now (btc_cycle 7 1000000000) - 0) < 1794
   \<and> snd (check_and_publish_new_news (btc_cycle 7 1000000000) fresh_bot)
   \<and> \<not> snd (check_and_publish_new_news (btc_cycle 7 1000000000)
         (fst (publish_post_manual \<lparr>manual_send_ok = True, manual_now = 0, manual_disk = WriteOk\<rparr>
            (cp ''hello'') fresh_bot)))"
proof -
  let ?env = "\<lparr>manual_send_ok = True, manual_now = 0, manual_disk = WriteOk\<rparr>"
  let ?r = "publish_post_manual ?env (cp ''hello'') fresh_bot"
  have "snd ?r"
    by (simp add: publish_post_manual_snd is_duplicate_def)
  then have p: "?r = (fst ?r, True)"
    by (simp add: prod_eq_iff)
  have e: "total_seconds (cycle_now (btc_cycle 7 1000000000) - manual_now ?env) < 1794"
    by (simp add: total_seconds_def btc_cycle_def)
  from manual_publish_guard [of ?env "cp ''hello''" fresh_bot "fst ?r"] p e
  have "check_and_publish_new_news (btc_cycle 7 1000000000) (fst ?r) = (fst ?r, False)"
    by blast
  then have 1: "\<not> snd (check_and_publish_new_news (btc_cycle 7 1000000000) (fst ?r))"
    by simp
  have 2: "snd (check_and_publish_new_news (btc_cycle 7 1000000000) fresh_bot)"
    by (simp add: btc_cycle_snd too_early_iff)
  from e have 3: "total_seconds (cycle_now (btc_cycle 7 1000000000) - 0) < 1794" by simp
  from p 1 2 3 show ?thesis by blast
qed

text \<open>
  The claim as stated fails: 29 minutes 55 seconds after a manual publication, which
  is less than \<open>MIN_HOURS_BETWEEN_POSTS\<close>, the news check publishes.
\<close>

theorem manual_postpones_counterexample:
  "snd (publish_post_manual \<lparr>manual_send_ok = True, manual_now = 0, manual_disk = WriteOk\<rparr>
          (cp ''hello'') fresh_bot)
   \<and> total_seconds (1795000000 - 0) / 3600 < MIN_HOURS_BETWEEN_POSTS
   \<and> snd (check_and_publish_new_news (btc_cycle 7 1795000000)
         (fst (publish_post_manual \<lparr>manual_send_ok = True, manual_now = 0, manual_disk = WriteOk\<rparr>
            (cp ''hello'') fresh_bot)))"
proof -
  let ?env = "\<lparr>manual_send_ok = True, manual_now = 0, manual_disk = WriteOk\<rparr>"
  let ?r = "publish_post_manual ?env (cp ''hello'') fresh_bot"
  have 1: "snd ?r"
    by (simp add: publish_post_manual_snd is_duplicate_def)
  then have p: "?r = (fst ?r, True)"
    by (simp add: prod_eq_iff)
  note f = publish_post_manual_True [OF p]
  have "snd (check_and_publish_new_news (btc_cycle 7 1795000000) (fst ?r)) \<longleftrightarrow>
      \<not> too_early 1795000000 (fst ?r)"
    by (rule btc_cycle_snd) (simp_all add: f hash_btc_hello)
  then have 2: "snd (check_and_publish_new_news (btc_cycle 7 1795000000) (fst ?r))"
    by (simp add: too_early_iff f)
  have 3: "total_seconds (1795000000 - 0) / 3600 < MIN_HOURS_BETWEEN_POSTS"
    by (simp add: hours_gate')
  from 1 2 3 show ?thesis by blast
qed

subsection \<open>The state file\<close>

lemma state_file_record_success:
  assumes "disk env = WriteOk"
  shows "state_file (record_success env c p n s)
     = Snapshot \<lparr>snap_last_post_time = last_post_time (record_success env c p n s),
         snap_published_posts_hashes = published_posts_hashes (record_success env c p n s),
         snap_published_news_ids = published_news_ids (record_success env c p n s)\<rparr>"
  using assms
  by (simp add: record_success_def mark_as_published_def save_state_def Let_def split: option.splits)

lemma publish_post_state_file:
  assumes "publish_post env c p n s = (s', True)" and "disk env = WriteOk"
  shows "state_file s'
     = Snapshot \<lparr>snap_last_post_time = last_post_time s',
         snap_published_posts_hashes = published_posts_hashes s',
         snap_published_news_ids = published_news_ids s'\<rparr>"
  using publish_post_True [OF assms(1)] state_file_record_success [OF assms(2)] by auto

text \<open>
  C3, as the code has it: the snapshot written after a successful publish holds the
  last cycle post time, the published content hashes and the published source ids,
  and a restart restores these three. It holds neither \<open>posts_today\<close> nor the dates of
  the last morning and evening price posts: after a restart \<open>posts_today\<close> is 0 and
  both dates are unset.
\<close>

theorem snapshot_restores:
  assumes "publish_post env c p n s = (s', True)" and "disk env = WriteOk"
  shows "last_post_time (init (state_file s') processed now) = last_post_time s'
    \<and> published_posts_hashes (init (state_file s') processed now) = published_posts_hashes s'
    \<and> published_news_ids (init (state_file s') processed now) = published_news_ids s'
    \<and> posts_today (init (state_file s') processed now) = 0
    \<and> last_price_post_morning (init (state_file s') processed now) = None
    \<and> last_price_post_evening (init (state_file s') processed now) = None"
  by (simp add: publish_post_state_file [OF assms] init_def load_state_def)

theorem snapshot_restores_witness:
  "publish_post (plain_publish 5) (cp ''btc'') False (Some 7) fresh_bot
     = (fst (publish_post (plain_publish 5) (cp ''btc'') False (Some 7) fresh_bot), True)
   \<and> disk (plain_publish 5) = WriteOk
   \<and> last_post_time (init (state_file (fst (publish_post (plain_publish 5) (cp ''btc'') False (Some 7) fresh_bot))) {} 9)
       = Some 5
   \<and> published_news_ids (init (state_file (fst (publish_post (plain_publish 5) (cp ''btc'') False (Some 7) fresh_bot))) {} 9)
       = {7}"
proof -
  let ?r = "publish_post (plain_publish 5) (cp ''btc'') False (Some 7) fresh_bot"
  have g: "guards_pass fresh_bot (cp ''btc'') (Some 7)"
    by (rule guards_pass_empty) simp_all
  then have "snd ?r" by (simp add: publish_post_snd delivered_def)
  then have p: "?r = (fst ?r, True)" by (simp add: prod_eq_iff)
  have d: "disk (plain_publish 5) = WriteOk" by simp
  have f: "last_post_time (fst ?r) = Some 5" "published_news_ids (fst ?r) = {7}"
    by (simp_all add: plain_publish_publishes [OF g])
  from snapshot_restores [OF p d, of "{}" 9] f p d show ?thesis by simp
qed

subsection \<open>The price tracks\<close>

lemma publish_post_price_dates:
  assumes "publish_post env c p n s = (s', r)"
  shows "last_price_post_morning s' = last_price_post_morning s
    \<and> last_price_post_evening s' = last_price_post_evening s"
proof (cases r)
  case True
  with assms publish_post_True_fields(5,6) [of env c p n s s'] show ?thesis by simp
next
  case False
  with assms publish_post_False [of env c p n s s'] show ?thesis by auto
qed

lemma check_and_publish_price_dates:
  assumes "check_and_publish_new_news env s = (s', r)"
  shows "last_price_post_morning s' = last_price_post_morning s
    \<and> last_price_post_evening s' = last_price_post_evening s"
proof (cases "too_early (cycle_now env) s")
  case True
  with assms show ?thesis by (simp add: check_and_publish_early)
next
  case False
  then show ?thesis
  proof (cases rule: check_and_publish_cases)
    case (no_news P)
    with assms show ?thesis by auto
  next
    case (not_generated P)
    with assms show ?thesis by auto
  next
    case (published P c i)
    with assms publish_post_price_dates [of "cycle_publish env" c False "Some i"
        "s\<lparr>processed_message_ids := P, calls := calls s @ [NewsSource, ContentGenerator]\<rparr>" s' r]
    show ?thesis by simp
  qed
qed

lemma generate_and_publish_price_dates:
  assumes "generate_and_publish_price env is_morning s = (s', r)"
  shows "last_price_post_morning s'
       = (if r \<and> is_morning then Some (date_of (price_msk_now env)) else last_price_post_morning s)"
    and "last_price_post_evening s'
       = (if r \<and> \<not> is_morning then Some (date_of (price_msk_now env)) else last_price_post_evening s)"
proof -
  have "last_price_post_morning s'
       = (if r \<and> is_morning then Some (date_of (price_msk_now env)) else last_price_post_morning s)
    \<and> last_price_post_evening s'
       = (if r \<and> \<not> is_morning then Some (date_of (price_msk_now env)) else last_price_post_evening s)"
  proof (cases "price_available env \<and> (\<exists>c. price_generated env = Some c \<and> c \<noteq> [])")
    case False
    with assms show ?thesis
      by (auto simp: generate_and_publish_price_def Let_def split: option.splits if_splits)
  next
    case True
    then obtain c where c: "price_available env" "price_generated env = Some c" "c \<noteq> []"
      by blast
    obtain s3 ok where p: "publish_post (price_publish env) c True None
        (call ContentGenerator (call PriceSource s)) = (s3, ok)"
      by (cases "publish_post (price_publish env) c True None
        (call ContentGenerator (call PriceSource s))")
    from publish_post_price_dates [OF p]
    have d: "last_price_post_morning s3 = last_price_post_morning s"
      "last_price_post_evening s3 = last_price_post_evening s"
      by simp_all
    from assms c p d show ?thesis
      by (auto simp: generate_and_publish_price_def Let_def split: if_splits)
  qed
  then show "last_price_post_morning s'
       = (if r \<and> is_morning then Some (date_of (price_msk_now env)) else last_price_post_morning s)"
    and "last_price_post_evening s'
       = (if r \<and> \<not> is_morning then Some (date_of (price_msk_now env)) else last_price_post_evening s)"
    by simp_all
qed

lemma morning_step:
  assumes "(if should_post_price_morning t s then generate_and_publish_price env True s
            else (s, False)) = (s', m)"
    and "date_of t = d" and "date_of (price_msk_now env) = d"
  shows "(m \<longrightarrow> last_price_post_morning s \<noteq> Some d)
    \<and> last_price_post_morning s' = (if m then Some d else last_price_post_morning s)
    \<and> last_price_post_evening s' = last_price_post_evening s"
proof (cases "should_post_price_morning t s")
  case True
  with assms(1) have g: "generate_and_publish_price env True s = (s', m)" by simp
  from True assms(2) have "last_price_post_morning s \<noteq> Some d"
    by (simp add: should_post_price_morning_def)
  with generate_and_publish_price_dates [OF g] assms(3) show ?thesis by simp
next
  case False
  with assms(1) show ?thesis by auto
qed

lemma evening_step:
  assumes "(if should_post_price_evening t s then generate_and_publish_price env False s
            else (s, False)) = (s', e)"
    and "date_of t = d" and "date_of (price_msk_now env) = d"
  shows "(e \<longrightarrow> last_price_post_evening s \<noteq> Some d)
    \<and> last_price_post_evening s' = (if e then Some d else last_price_post_evening s)
    \<and> last_price_post_morning s' = last_price_post_morning s"
proof (cases "should_post_price_evening t s")
  case True
  with assms(1) have g: "generate_and_publish_price env False s = (s', e)" by simp
  from True assms(2) have "last_price_post_evening s \<noteq> Some d"
    by (simp add: should_post_price_evening_def)
  with generate_and_publish_price_dates [OF g] assms(3) show ?thesis by simp
next
  case False
  with assms(1) show ?thesis by auto
qed

lemma run_loop_iteration_dates:
  assumes "run_loop_iteration env s = (s', r)" and "on_day d env"
  shows "(morning_posted r \<longrightarrow> last_price_post_morning s \<noteq> Some d)
    \<and> last_price_post_morning s' = (if morning_posted r then Some d else last_price_post_morning s)
    \<and> (evening_posted r \<longrightarrow> last_price_post_evening s \<noteq> Some d)
    \<and> last_price_post_evening s' = (if evening_posted r then Some d else last_price_post_evening s)"
proof -
  obtain s1 n where c: "check_and_publish_new_news (tick_cycle env) s = (s1, n)"
    by (cases "check_and_publish_new_news (tick_cycle env) s")
  obtain s2 m where mo: "(if should_post_price_morning (tick_msk_morning env) s1
      then generate_and_publish_price (tick_morning env) True s1 else (s1, False)) = (s2, m)"
    by (cases "if should_post_price_morning (tick_msk_morning env) s1
      then generate_and_publish_price (tick_morning env) True s1 else (s1, False)")
  obtain s3 e where ev: "(if should_post_price_evening (tick_msk_evening env) s2
      then generate_and_publish_price (tick_evening env) False s2 else (s2, False)) = (s3, e)"
    by (cases "if should_post_price_evening (tick_msk_evening env) s2
      then generate_and_publish_price (tick_evening env) False s2 else (s2, False)")
  from assms(1) c mo ev
  have r: "s' = s3" "morning_posted r = m" "evening_posted r = e"
    by (auto simp: run_loop_iteration_def)
  from assms(2) have d: "date_of (tick_msk_morning env) = d"
    "date_of (price_msk_now (tick_morning env)) = d"
    "date_of (tick_msk_evening env) = d" "date_of (price_msk_now (tick_evening env)) = d"
    by (simp_all add: on_day_def)
  from check_and_publish_price_dates [OF c] morning_step [OF mo d(1,2)] evening_step [OF ev d(3,4)] r
  show ?thesis by simp
qed

lemma run_loop_start_dates:
  assumes "run_loop_start env s = (s', r)" and "on_day d env"
  shows "(morning_posted r \<longrightarrow> last_price_post_morning s \<noteq> Some d)
    \<and> last_price_post_morning s' = (if morning_posted r then Some d else last_price_post_morning s)
    \<and> (evening_posted r \<longrightarrow> last_price_post_evening s \<noteq> Some d)
    \<and> last_price_post_evening s' = (if evening_posted r then Some d else last_price_post_evening s)"
proof -
  obtain s1 m where mo: "(if should_post_price_morning (tick_msk_morning env) s
      then generate_and_publish_price (tick_morning env) True s else (s, False)) = (s1, m)"
    by (cases "if should_post_price_morning (tick_msk_morning env) s
      then generate_and_publish_price (tick_morning env) True s else (s, False)")
  obtain s2 e where ev: "(if should_post_price_evening (tick_msk_evening env) s1
      then generate_and_publish_price (tick_evening env) False s1 else (s1, False)) = (s2, e)"
    by (cases "if should_post_price_evening (tick_msk_evening env) s1
      then generate_and_publish_price (tick_evening env) False s1 else (s1, False)")
  obtain s3 n where c: "check_and_publish_new_news (tick_cycle env) s2 = (s3, n)"
    by (cases "check_and_publish_new_news (tick_cycle env) s2")
  from assms(1) c mo ev
  have r: "s' = s3" "morning_posted r = m" "evening_posted r = e"
    by (auto simp: run_loop_start_def)
  from assms(2) have d: "date_of (tick_msk_morning env) = d"
    "date_of (price_msk_now (tick_morning env)) = d"
    "date_of (tick_msk_evening env) = d" "date_of (price_msk_now (tick_evening env)) = d"
    by (simp_all add: on_day_def)
  from check_and_publish_price_dates [OF c] morning_step [OF mo d(1,2)] evening_step [OF ev d(3,4)] r
  show ?thesis by simp
qed

lemma run_loop_iterations_snd:
  assumes "run_loop_iteration env s = (s1, r)"
  shows "snd (run_loop_iterations (env # envs) s) = r # snd (run_loop_iterations envs s1)"
  using assms by (simp split: prod.splits)

lemma run_loop_snd:
  assumes "run_loop_start start s = (s1, r)"
  shows "snd (run_loop start envs s) = r # snd (run_loop_iterations envs s1)"
  using assms by (simp add: run_loop_def split: prod.splits)

lemma iterations_after_morning:
  assumes "last_price_post_morning s = Some d" and "\<forall>env\<in>set envs. on_day d env"
  shows "filter morning_posted (snd (run_loop_iterations envs s)) = []"
  using assms
proof (induction envs arbitrary: s)
  case Nil
  then show ?case by simp
next
  case (Cons env envs)
  obtain s1 r where i: "run_loop_iteration env s = (s1, r)"
    by (cases "run_loop_iteration env s")
  from Cons.prems have "on_day d env" by simp
  from run_loop_iteration_dates [OF i this] Cons.prems(1)
  have "\<not> morning_posted r" "last_price_post_morning s1 = Some d" by auto
  with Cons.IH [of s1] Cons.prems(2) show ?case
    by (simp add: run_loop_iterations_snd [OF i] del: run_loop_iterations.simps)
qed

lemma iterations_after_evening:
  assumes "last_price_post_evening s = Some d" and "\<forall>env\<in>set envs. on_day d env"
  shows "filter evening_posted (snd (run_loop_iterations envs s)) = []"
  using assms
proof (induction envs arbitrary: s)
  case Nil
  then show ?case by simp
next
  case (Cons env envs)
  obtain s1 r where i: "run_loop_iteration env s = (s1, r)"
    by (cases "run_loop_iteration env s")
  from Cons.prems have "on_day d env" by simp
  from run_loop_iteration_dates [OF i this] Cons.prems(1)
  have "\<not> evening_posted r" "last_price_post_evening s1 = Some d" by auto
  with Cons.IH [of s1] Cons.prems(2) show ?case
    by (simp add: run_loop_iterations_snd [OF i] del: run_loop_iterations.simps)
qed

lemma iterations_once:
  assumes "\<forall>env\<in>set envs. on_day d env"
  shows "length (filter morning_posted (snd (run_loop_iterations envs s))) \<le> 1
    \<and> length (filter evening_posted (snd (run_loop_iterations envs s))) \<le> 1"
  using assms
proof (induction envs arbitrary: s)
  case Nil
  then show ?case by simp
next
  case (Cons env envs)
  obtain s1 r where i: "run_loop_iteration env s = (s1, r)"
    by (cases "run_loop_iteration env s")
  from Cons.prems have day: "on_day d env" and rest: "\<forall>env\<in>set envs. on_day d env" by simp_all
  note dates = run_loop_iteration_dates [OF i day]
  have m: "length (filter morning_posted (r # snd (run_loop_iterations envs s1))) \<le> 1"
  proof (cases "morning_posted r")
    case True
    with dates have "last_price_post_morning s1 = Some d" by simp
    from iterations_after_morning [OF this rest] True show ?thesis by simp
  next
    case False
    with Cons.IH [OF rest, of s1] show ?thesis by simp
  qed
  have e: "length (filter evening_posted (r # snd (run_loop_iterations envs s1))) \<le> 1"
  proof (cases "evening_posted r")
    case True
    with dates have "last_price_post_evening s1 = Some d" by simp
    from iterations_after_evening [OF this rest] True show ?thesis by simp
  next
    case False
    with Cons.IH [OF rest, of s1] show ?thesis by simp
  qed
  from m e show ?case
    by (simp add: run_loop_iterations_snd [OF i] del: run_loop_iterations.simps)
qed

text \<open>
  C7: take any stretch of a run in which every reading of the Moscow clock falls on
  one calendar day: the passes of the main loop, with or without the lines that
  precede the loop. However many passes there are, at most one of them publishes a
  morning price post and at most one an evening price post. For once a price post has
  gone out, the date of its track is that day, and the track's check refuses at every
  time of that day.
\<close>

theorem price_posts_once_per_day:
  assumes "\<forall>env\<in>set (start # envs). on_day d env"
  shows "length (filter morning_posted (snd (run_loop start envs s))) \<le> 1
    \<and> length (filter evening_posted (snd (run_loop start envs s))) \<le> 1
    \<and> length (filter morning_posted (snd (run_loop_iterations envs s))) \<le> 1
    \<and> length (filter evening_posted (snd (run_loop_iterations envs s))) \<le> 1
    \<and> (generate_and_publish_price penv True s = (s', True) \<and> date_of t = date_of (price_msk_now penv)
          \<longrightarrow> \<not> should_post_price_morning t s')
    \<and> (generate_and_publish_price penv False s = (s', True) \<and> date_of t = date_of (price_msk_now penv)
          \<longrightarrow> \<not> should_post_price_evening t s')"
proof -
  from assms have day: "on_day d start" and rest: "\<forall>env\<in>set envs. on_day d env" by simp_all
  obtain s1 r where i: "run_loop_start start s = (s1, r)"
    by (cases "run_loop_start start s")
  note dates = run_loop_start_dates [OF i day]
  have m: "length (filter morning_posted (r # snd (run_loop_iterations envs s1))) \<le> 1"
  proof (cases "morning_posted r")
    case True
    with dates have "last_price_post_morning s1 = Some d" by simp
    from iterations_after_morning [OF this rest] True show ?thesis by simp
  next
    case False
    with iterations_once [OF rest, of s1] show ?thesis by simp
  qed
  have e: "length (filter evening_posted (r # snd (run_loop_iterations envs s1))) \<le> 1"
  proof (cases "evening_posted r")
    case True
    with dates have "last_price_post_evening s1 = Some d" by simp
    from iterations_after_evening [OF this rest] True show ?thesis by simp
  next
    case False
    with iterations_once [OF rest, of s1] show ?thesis by simp
  qed
  from m e have 1: "length (filter morning_posted (snd (run_loop start envs s))) \<le> 1
    \<and> length (filter evening_posted (snd (run_loop start envs s))) \<le> 1"
    by (simp add: run_loop_snd [OF i])
  have 2: "\<not> should_post_price_morning t s'"
    if "generate_and_publish_price penv True s = (s', True)"
      and "date_of t = date_of (price_msk_now penv)"
    using generate_and_publish_price_dates(1) [OF that(1)] that(2)
    by (simp add: should_post_price_morning_def)
  have 3: "\<not> should_post_price_evening t s'"
    if "generate_and_publish_price penv False s = (s', True)"
      and "date_of t = date_of (price_msk_now penv)"
    using generate_and_publish_price_dates(2) [OF that(1)] that(2)
    by (simp add: should_post_price_evening_def)
  from 1 2 3 iterations_once [OF rest, of s] show ?thesis by blast
qed


lemma price_ok_result:
  assumes "guards_pass s (cp ''TON is up'') None"
  shows "generate_and_publish_price (price_ok t) True s
     = ((record_success (plain_publish t) (cp ''TON is up'') True None
           (s\<lparr>calls := calls s @ [PriceSource, ContentGenerator, ImageGenerator,
                                    OpinionGenerator, ChannelPublisher]\<rparr>))
          \<lparr>last_price_post_morning := Some (date_of t)\<rparr>, True)"
proof -
  have ne: "cp ''TON is up'' \<noteq> []" by (simp add: cp_def)
  have g: "guards_pass (s\<lparr>calls := calls s @ [PriceSource, ContentGenerator]\<rparr>)
      (cp ''TON is up'') None"
    using assms by (simp add: guards_pass_def is_duplicate_def)
  show ?thesis
    using ne by (simp add: generate_and_publish_price_def price_ok_def plain_publish_publishes [OF g]
        call_def)
qed

theorem price_posts_once_per_day_witness:
  "on_day 0 (price_tick 39900000000) \<and> on_day 0 (price_tick 39960000000)
   \<and> length (filter morning_posted
        (snd (run_loop (price_tick 39900000000) [price_tick 39960000000] fresh_bot))) \<le> 1
   \<and> should_post_price_morning 39900000000 fresh_bot
   \<and> snd (generate_and_publish_price (price_ok 39900000000) True fresh_bot)
   \<and> \<not> should_post_price_morning 39960000000
         (fst (generate_and_publish_price (price_ok 39900000000) True fresh_bot))"
proof -
  let ?r = "generate_and_publish_price (price_ok 39900000000) True fresh_bot"
  have h: "\<forall>env\<in>set (price_tick 39900000000 # [price_tick 39960000000]). on_day 0 env"
    by (simp add: on_day_def price_tick_def price_ok_def date_of_def day_us_def)
  have g: "guards_pass fresh_bot (cp ''TON is up'') None"
    by (rule guards_pass_empty) simp_all
  have 1: "should_post_price_morning 39900000000 fresh_bot"
    by (simp add: should_post_price_morning_def hour_of_def minute_of_def
          PRICE_POST_MORNING_HOUR_def)
  have 2: "snd ?r" by (simp add: price_ok_result [OF g])
  then have p: "?r = (fst ?r, True)" by (simp add: prod_eq_iff)
  have d: "date_of 39960000000 = date_of (price_msk_now (price_ok 39900000000))"
    by (simp add: price_ok_def date_of_def day_us_def)
  note th = price_posts_once_per_day [OF h, where s = fresh_bot and penv = "price_ok 39900000000"
      and s' = "fst ?r" and t = 39960000000]
  from th p d have 3: "\<not> should_post_price_morning 39960000000 (fst ?r)" by blast
  from th have 4: "length (filter morning_posted
        (snd (run_loop (price_tick 39900000000) [price_tick 39960000000] fresh_bot))) \<le> 1"
    by blast
  from h have 5: "on_day 0 (price_tick 39900000000)" "on_day 0 (price_tick 39960000000)"
    by simp_all
  from 1 2 3 4 5 show ?thesis by blast
qed

text \<open>
  The claim as stated fails: after a morning price post the snapshot on disk holds
  neither \<open>posts_today\<close> nor the date of the post, and a restart starts from 0 and
  from no date.
\<close>

theorem snapshot_counterexample:
  "snd (generate_and_publish_price (price_ok 39900000000) True fresh_bot)
   \<and> posts_today (fst (generate_and_publish_price (price_ok 39900000000) True fresh_bot)) = 1
   \<and> last_price_post_morning (fst (generate_and_publish_price (price_ok 39900000000) True fresh_bot))
       = Some 0
   \<and> posts_today (init (state_file (fst (generate_and_publish_price (price_ok 39900000000) True
         fresh_bot))) {} 39900000000) = 0
   \<and> last_price_post_morning (init (state_file (fst (generate_and_publish_price
         (price_ok 39900000000) True fresh_bot))) {} 39900000000) = None"
proof -
  have g: "guards_pass fresh_bot (cp ''TON is up'') None"
    by (rule guards_pass_empty) simp_all
  show ?thesis
    by (simp add: price_ok_result [OF g] init_def date_of_def day_us_def split: prod.splits)
qed

subsection \<open>The guards and the external calls\<close>

lemma is_duplicate_cong:
  "published_posts_hashes s' = published_posts_hashes s \<Longrightarrow> is_duplicate s' c = is_duplicate s c"
  by (simp add: is_duplicate_def)

lemma check_and_publish_no_fresh:
  assumes "\<not> too_early (cycle_now env) s"
    and "filter (\<lambda>item. item_id item \<notin> published_news_ids s)
           (fst (get_new_relevant_news_items (cycle_feed env) s)) = []"
  shows "check_and_publish_new_news env s
     = (snd (get_new_relevant_news_items (cycle_feed env) s), False)"
proof -
  obtain items s1 where g: "get_new_relevant_news_items (cycle_feed env) s = (items, s1)"
    by (cases "get_new_relevant_news_items (cycle_feed env) s")
  from news_items_snd(2) [of "cycle_feed env" s] g
  have "published_news_ids s1 = published_news_ids s" by simp
  with assms g show ?thesis
    by (simp add: check_and_publish_new_news_def)
qed

text \<open>
  C4, as the code has it: \<open>publish_post\<close> makes both checks before it calls the image
  generator or the channel, and a rejected attempt returns the state as it was. In the
  news check the source ids are checked before the content generator is called: if
  every polled item is already consumed, only the news source has been called. The
  content hash is that of the generated text, so it can only be checked after the
  content generator has run: a duplicate text is rejected with the news source and the
  content generator called, and nothing else. In both cases nothing of the state
  changes but the processed message ids and the trace of calls.
\<close>

theorem guards_before_publishing:
  "(is_duplicate s c \<or> (news_id = Some i \<and> i \<noteq> 0 \<and> i \<in> published_news_ids s)
      \<longrightarrow> publish_post env c p news_id s = (s, False))
   \<and> (check_and_publish_new_news cenv s = (s', r)
       \<and> (\<forall>item\<in>set (fst (get_new_relevant_news_items (cycle_feed cenv) s)).
             item_id item \<in> published_news_ids s)
      \<longrightarrow> \<not> r \<and> (\<exists>cs. calls s' = calls s @ cs \<and> set cs \<subseteq> {NewsSource})
          \<and> s'\<lparr>processed_message_ids := processed_message_ids s, calls := calls s\<rparr> = s)
   \<and> (check_and_publish_new_news cenv s = (s', r) \<and> cycle_generated cenv = Some c \<and> is_duplicate s c
      \<longrightarrow> \<not> r \<and> (\<exists>cs. calls s' = calls s @ cs \<and> set cs \<subseteq> {NewsSource, ContentGenerator})
          \<and> s'\<lparr>processed_message_ids := processed_message_ids s, calls := calls s\<rparr> = s)"
proof -
  have 1: "publish_post env c p news_id s = (s, False)"
    if "is_duplicate s c \<or> (news_id = Some i \<and> i \<noteq> 0 \<and> i \<in> published_news_ids s)"
    using that by (intro publish_post_rejects) auto
  have 2: "\<not> r \<and> (\<exists>cs. calls s' = calls s @ cs \<and> set cs \<subseteq> {NewsSource})
          \<and> s'\<lparr>processed_message_ids := processed_message_ids s, calls := calls s\<rparr> = s"
    if run: "check_and_publish_new_news cenv s = (s', r)"
      and used: "\<forall>item\<in>set (fst (get_new_relevant_news_items (cycle_feed cenv) s)).
             item_id item \<in> published_news_ids s"
  proof (cases "too_early (cycle_now cenv) s")
    case True
    with run show ?thesis by (simp add: check_and_publish_early)
  next
    case False
    from used have none: "filter (\<lambda>item. item_id item \<notin> published_news_ids s)
         (fst (get_new_relevant_news_items (cycle_feed cenv) s)) = []"
      by (simp add: filter_empty_conv)
    from check_and_publish_no_fresh [OF False none] run
    have "s' = snd (get_new_relevant_news_items (cycle_feed cenv) s)" and "\<not> r"
      by simp_all
    with news_items_state [of "cycle_feed cenv" s] show ?thesis by auto
  qed
  have 3: "\<not> r \<and> (\<exists>cs. calls s' = calls s @ cs \<and> set cs \<subseteq> {NewsSource, ContentGenerator})
          \<and> s'\<lparr>processed_message_ids := processed_message_ids s, calls := calls s\<rparr> = s"
    if run: "check_and_publish_new_news cenv s = (s', r)"
      and gen: "cycle_generated cenv = Some c" and dup: "is_duplicate s c"
  proof (cases "too_early (cycle_now cenv) s")
    case True
    with run show ?thesis by (simp add: check_and_publish_early)
  next
    case False
    then show ?thesis
    proof (cases rule: check_and_publish_cases)
      case (no_news P)
      with run show ?thesis by auto
    next
      case (not_generated P)
      with run show ?thesis by auto
    next
      case (published P c' i')
      let ?s2 = "s\<lparr>processed_message_ids := P, calls := calls s @ [NewsSource, ContentGenerator]\<rparr>"
      from published(1) gen have "c' = c" by simp
      moreover from dup have "is_duplicate ?s2 c" by (simp add: is_duplicate_def)
      ultimately have "publish_post (cycle_publish cenv) c' False (Some i') ?s2 = (?s2, False)"
        by (intro publish_post_rejects) simp
      with published(4) run show ?thesis by auto
    qed
  qed
  from 1 2 3 show ?thesis by blast
qed


lemma btc_cycle_duplicate:
  assumes "i \<notin> processed_message_ids s" and "i \<notin> published_news_ids s"
    and "is_duplicate s (cp ''btc'')" and "\<not> too_early t s"
  shows "check_and_publish_new_news (btc_cycle i t) s
     = (s\<lparr>processed_message_ids := insert i (processed_message_ids s),
          calls := calls s @ [NewsSource, ContentGenerator]\<rparr>, False)"
proof -
  let ?s1 = "s\<lparr>processed_message_ids := insert i (processed_message_ids s),
          calls := calls s @ [NewsSource]\<rparr>"
  have ne: "cp ''btc'' \<noteq> []" by (simp add: cp_def)
  with assms(1)
  have g: "get_new_relevant_news_items (btc_feed i) s = ([\<lparr>item_id = i, item_text = cp ''btc''\<rparr>], ?s1)"
    by (simp add: get_new_relevant_news_items_def get_new_relevant_news_def btc_feed_def call_def
          btc_strip btc_not_service btc_relevant)
  have "is_duplicate (call ContentGenerator ?s1) (cp ''btc'')"
    using assms(3) by (simp add: is_duplicate_def)
  then have "publish_post (plain_publish t) (cp ''btc'') False (Some i) (call ContentGenerator ?s1)
      = (call ContentGenerator ?s1, False)"
    by (intro publish_post_rejects) simp
  with assms(2,4) g ne show ?thesis
    by (simp add: check_and_publish_new_news_def btc_cycle_def btc_relevant call_def)
qed

theorem guards_before_publishing_witness:
  "is_duplicate (fresh_bot\<lparr>published_posts_hashes := {get_post_hash (cp ''btc'')}\<rparr>) (cp ''btc'')
   \<and> publish_post (plain_publish 0) (cp ''btc'') False None
        (fresh_bot\<lparr>published_posts_hashes := {get_post_hash (cp ''btc'')}\<rparr>)
       = (fresh_bot\<lparr>published_posts_hashes := {get_post_hash (cp ''btc'')}\<rparr>, False)
   \<and> \<not> snd (check_and_publish_new_news (btc_cycle 7 0)
         (fresh_bot\<lparr>published_posts_hashes := {get_post_hash (cp ''btc'')}\<rparr>))
   \<and> published_posts_hashes (fst (check_and_publish_new_news (btc_cycle 7 0)
         (fresh_bot\<lparr>published_posts_hashes := {get_post_hash (cp ''btc'')}\<rparr>)))
       = {get_post_hash (cp ''btc'')}
   \<and> fst (get_new_relevant_news_items (cycle_feed (btc_cycle 7 0))
           (fresh_bot\<lparr>published_news_ids := {7}\<rparr>))
       = [\<lparr>item_id = 7, item_text = cp ''btc''\<rparr>]
   \<and> 7 \<in> published_news_ids (fresh_bot\<lparr>published_news_ids := {7}\<rparr>)
   \<and> \<not> snd (check_and_publish_new_news (btc_cycle 7 0) (fresh_bot\<lparr>published_news_ids := {7}\<rparr>))"
proof -
  let ?d = "fresh_bot\<lparr>published_posts_hashes := {get_post_hash (cp ''btc'')}\<rparr>"
  let ?u = "fresh_bot\<lparr>published_news_ids := {7}\<rparr>"
  let ?rd = "check_and_publish_new_news (btc_cycle 7 0) ?d"
  let ?ru = "check_and_publish_new_news (btc_cycle 7 0) ?u"
  have dup: "is_duplicate ?d (cp ''btc'')" by (simp add: is_duplicate_def)
  have gen: "cycle_generated (btc_cycle 7 0) = Some (cp ''btc'')" by (simp add: btc_cycle_def)
  have used: "\<forall>item\<in>set (fst (get_new_relevant_news_items (cycle_feed (btc_cycle 7 0)) ?u)).
         item_id item \<in> published_news_ids ?u"
    by (simp add: btc_cycle_def btc_feed_items)
  have rd: "?rd = (fst ?rd, snd ?rd)" and ru: "?ru = (fst ?ru, snd ?ru)" by simp_all
  note d = guards_before_publishing [where s = ?d and c = "cp ''btc''" and news_id = None
      and env = "plain_publish 0" and p = False and cenv = "btc_cycle 7 0"
      and s' = "fst ?rd" and r = "snd ?rd"]
  note u = guards_before_publishing [where s = ?u and cenv = "btc_cycle 7 0"
      and s' = "fst ?ru" and r = "snd ?ru"]
  from d dup have 1: "publish_post (plain_publish 0) (cp ''btc'') False None ?d = (?d, False)"
    by blast
  from d rd gen dup have 2: "\<not> snd ?rd"
    and f: "(fst ?rd)\<lparr>processed_message_ids := processed_message_ids ?d, calls := calls ?d\<rparr> = ?d"
    by blast+
  from f have "published_posts_hashes
      ((fst ?rd)\<lparr>processed_message_ids := processed_message_ids ?d, calls := calls ?d\<rparr>)
      = published_posts_hashes ?d"
    by (rule arg_cong)
  then have 3: "published_posts_hashes (fst ?rd) = {get_post_hash (cp ''btc'')}" by simp
  from u ru used have 4: "\<not> snd ?ru" by blast
  have 5: "fst (get_new_relevant_news_items (cycle_feed (btc_cycle 7 0)) ?u)
      = [\<lparr>item_id = 7, item_text = cp ''btc''\<rparr>]"
    by (simp add: btc_cycle_def btc_feed_items)
  have 6: "7 \<in> published_news_ids ?u" by simp
  from dup 1 2 3 4 5 6 show ?thesis by blast
qed

text \<open>
  The claim as stated fails: when the generated text is a duplicate, the attempt is
  rejected, but the content generator has been called and the message has been marked
  as processed.
\<close>

theorem checks_before_generator_counterexample:
  "is_duplicate (fresh_bot\<lparr>published_posts_hashes := {get_post_hash (cp ''btc'')}\<rparr>) (cp ''btc'')
   \<and> \<not> snd (check_and_publish_new_news (btc_cycle 7 0)
         (fresh_bot\<lparr>published_posts_hashes := {get_post_hash (cp ''btc'')}\<rparr>))
   \<and> calls (fst (check_and_publish_new_news (btc_cycle 7 0)
         (fresh_bot\<lparr>published_posts_hashes := {get_post_hash (cp ''btc'')}\<rparr>)))
       = [NewsSource, ContentGenerator]
   \<and> processed_message_ids (fst (check_and_publish_new_news (btc_cycle 7 0)
         (fresh_bot\<lparr>published_posts_hashes := {get_post_hash (cp ''btc'')}\<rparr>)))
       \<noteq> processed_message_ids (fresh_bot\<lparr>published_posts_hashes := {get_post_hash (cp ''btc'')}\<rparr>)"
proof -
  let ?d = "fresh_bot\<lparr>published_posts_hashes := {get_post_hash (cp ''btc'')}\<rparr>"
  have dup: "is_duplicate ?d (cp ''btc'')" by (simp add: is_duplicate_def)
  have "check_and_publish_new_news (btc_cycle 7 0) ?d
     = (?d\<lparr>processed_message_ids := insert 7 (processed_message_ids ?d),
          calls := calls ?d @ [NewsSource, ContentGenerator]\<rparr>, False)"
    by (rule btc_cycle_duplicate) (simp_all add: dup too_early_iff)
  with dup show ?thesis by simp
qed

subsection \<open>The hash under trimming, lower-casing and collapsing\<close>

lemma lower_cp_idem [simp]: "lower_cp (lower_cp c) = lower_cp c"
  by (simp add: lower_cp_def)















subsection \<open>The source id after a text-only fallback\<close>

text \<open>
  C1 fails on the code where the claim is right: when the first attempt ends in an
  exception other than \<open>TelegramError\<close> and the text-only fallback goes through, the
  post is out but the id of its news item is not recorded, and a second attempt from
  the same item, with another text, goes out as well. After a \<open>TelegramError\<close> the
  same fallback records the id.
\<close>

theorem fallback_forgets_source_id:
  "snd (publish_post \<lparr>image_result = Raises OtherException, send_result = Returns (),
          fallback_ok = True, publish_now = 0, disk = WriteOk\<rparr> (cp ''btc'') False (Some 7) fresh_bot)
   \<and> 7 \<notin> published_news_ids
         (fst (publish_post \<lparr>image_result = Raises OtherException, send_result = Returns (),
            fallback_ok = True, publish_now = 0, disk = WriteOk\<rparr> (cp ''btc'') False (Some 7) fresh_bot))
   \<and> snd (publish_post (plain_publish 1) (cp ''hello'') False (Some 7)
         (fst (publish_post \<lparr>image_result = Raises OtherException, send_result = Returns (),
            fallback_ok = True, publish_now = 0, disk = WriteOk\<rparr> (cp ''btc'') False (Some 7) fresh_bot)))
   \<and> 7 \<in> published_news_ids
         (fst (publish_post \<lparr>image_result = Raises TelegramError, send_result = Returns (),
            fallback_ok = True, publish_now = 0, disk = WriteOk\<rparr> (cp ''btc'') False (Some 7) fresh_bot))"
proof -
  let ?other = "\<lparr>image_result = Raises OtherException, send_result = Returns (),
          fallback_ok = True, publish_now = 0, disk = WriteOk\<rparr>"
  let ?tg = "\<lparr>image_result = Raises TelegramError, send_result = Returns (),
          fallback_ok = True, publish_now = 0, disk = WriteOk\<rparr>"
  let ?s1 = "fst (publish_post ?other (cp ''btc'') False (Some 7) fresh_bot)"
  have g: "guards_pass fresh_bot (cp ''btc'') (Some 7)"
    by (rule guards_pass_empty) simp_all
  have f: "published_news_ids ?s1 = {}" "published_posts_hashes ?s1 = {get_post_hash (cp ''btc'')}"
    by (simp_all add: publish_post_unguarded [OF g] publish_fallback_def)
  have 1: "snd (publish_post ?other (cp ''btc'') False (Some 7) fresh_bot)"
    by (simp add: publish_post_snd g delivered_def)
  have 2: "7 \<notin> published_news_ids ?s1" by (simp add: f)
  have "guards_pass ?s1 (cp ''hello'') (Some 7)"
    using hash_btc_hello by (simp add: guards_pass_def is_duplicate_def f)
  then have 3: "snd (publish_post (plain_publish 1) (cp ''hello'') False (Some 7) ?s1)"
    by (simp add: publish_post_snd delivered_def)
  have 4: "7 \<in> published_news_ids (fst (publish_post ?tg (cp ''btc'') False (Some 7) fresh_bot))"
    by (simp add: publish_post_unguarded [OF g] publish_fallback_def)
  from 1 2 3 4 show ?thesis by blast
qed

end
